theory Spec2Isabelle
  imports Complex_Main "HOL-Library.AList"
begin

section \<open>Series and data frames\<close>

text \<open>
  The backtest works on a pandas table. A column is a list of cells; a cell holds a
  number or is undefined (\<open>None\<close> stands for NaN). Numbers are real numbers: rounding
  of the machine floats is outside this model, and a non-finite quotient is
  written as an undefined cell. A table has an index (the dates) and its named columns
  in order; assigning a column replaces it where the name exists and appends it
  otherwise.

  The source calls pandas and numpy, whose code is not part of this repository. Their
  operations are modelled here from their documented behaviour, and every result below
  holds relative to these readings: \<open>rolling(window=w).mean()\<close> needs \<open>w\<close>
  observations in the window; \<open>replace(to_replace=v, method='ffill')\<close> and the forward
  fill leave missing cells before the first valid one as they are; \<open>pct_change\<close>
  forward fills before it divides; a comparison with NaN is false; \<open>min\<close> skips NaN;
  the float power of a negative base to a fractional exponent is NaN; the division of
  two scalars raises on a zero divisor.
\<close>

type_synonym cell = "real option"
type_synonym series = "cell list"

datatype error = KeyError string | ZeroDivisionError

record 'd dataframe =
  index :: "'d list"
  columns :: "(string \<times> series) list"

text \<open>
  A call either returns the table it worked on or raises; an exception leaves the
  table as it was at the raise.
\<close>

type_synonym 'd result = "(error \<times> 'd dataframe) + 'd dataframe"

definition setitem :: "'d dataframe \<Rightarrow> string \<Rightarrow> series \<Rightarrow> 'd dataframe" where
  "setitem df name s = df\<lparr>columns := AList.update name s (columns df)\<rparr>"

definition with_col :: "'d dataframe \<Rightarrow> string \<Rightarrow> (series \<Rightarrow> 'd result) \<Rightarrow> 'd result" where
  "with_col df name k =
     (case map_of (columns df) name of
        None \<Rightarrow> Inl (KeyError name, df)
      | Some s \<Rightarrow> k s)"

subsection \<open>Column names built from a window\<close>

definition digit_char :: "nat \<Rightarrow> char" where
  "digit_char d = ''0123456789'' ! d"

fun str_nat :: "nat \<Rightarrow> string" where
  "str_nat n = (if n < 10 then [digit_char n] else str_nat (n div 10) @ [digit_char (n mod 10)])"

declare str_nat.simps [simp del]

definition sma_name :: "nat \<Rightarrow> string" where
  "sma_name w = ''SMA'' @ str_nat w"

definition digit_val :: "char \<Rightarrow> nat" where
  "digit_val c = of_char c - 48"

definition nat_str :: "string \<Rightarrow> nat" where
  "nat_str s = foldl (\<lambda>acc c. 10 * acc + digit_val c) 0 s"

subsection \<open>Operations on columns\<close>

fun dropna :: "series \<Rightarrow> real list" where
  "dropna [] = []"
| "dropna (None # xs) = dropna xs"
| "dropna (Some x # xs) = x # dropna xs"

text \<open>
  The mean of one rolling window: defined when the window holds at least
  \<open>minp\<close> observations (and at least one).
\<close>

definition window_mean :: "nat \<Rightarrow> series \<Rightarrow> cell" where
  "window_mean minp win =
     (let obs = dropna win; nobs = length obs
      in if minp \<le> nobs \<and> 0 < nobs then Some (sum_list obs / real nobs) else None)"

text \<open>
  \<open>rolling(window=w).mean()\<close>: the window at \<open>i\<close> holds the cells
  \<open>max 0 (i + 1 - w) .. i\<close>, and the least number of observations is \<open>w\<close>.
\<close>

definition rolling_mean :: "nat \<Rightarrow> series \<Rightarrow> series" where
  "rolling_mean w xs =
     map (\<lambda>i. window_mean w (drop (Suc i - w) (take (Suc i) xs))) [0..<length xs]"

text \<open>Comparison of two columns, cell by cell; a comparison with NaN is false.\<close>

fun cell_gt :: "cell \<Rightarrow> cell \<Rightarrow> bool" where
  "cell_gt (Some a) (Some b) = (a > b)"
| "cell_gt _ _ = False"

definition gt_series :: "series \<Rightarrow> series \<Rightarrow> bool list" where
  "gt_series xs ys = map2 cell_gt xs ys"

text \<open>\<open>df.loc[mask, name] = v\<close> on one column.\<close>

definition loc_set :: "bool list \<Rightarrow> real \<Rightarrow> series \<Rightarrow> series" where
  "loc_set msk v col = map2 (\<lambda>m c. if m then Some v else c) msk col"

text \<open>
  Forward fill: a cell that counts as missing takes the last cell that did not; missing
  cells before the first such cell stay as they are.
\<close>

fun pad_from :: "(cell \<Rightarrow> bool) \<Rightarrow> cell option \<Rightarrow> series \<Rightarrow> series" where
  "pad_from missing prev [] = []"
| "pad_from missing prev (x # xs) =
     (if missing x
      then (case prev of None \<Rightarrow> x | Some v \<Rightarrow> v) # pad_from missing prev xs
      else x # pad_from missing (Some x) xs)"

text \<open>\<open>s.replace(to_replace=v, method='ffill')\<close>: the cells equal to \<open>v\<close> are the missing ones.\<close>

definition replace_ffill :: "real \<Rightarrow> series \<Rightarrow> series" where
  "replace_ffill v xs = pad_from (\<lambda>c. c = Some v) None xs"

definition ffill :: "series \<Rightarrow> series" where
  "ffill xs = pad_from (\<lambda>c. c = None) None xs"

definition fillna :: "real \<Rightarrow> series \<Rightarrow> series" where
  "fillna v xs = map (\<lambda>c. case c of None \<Rightarrow> Some v | Some x \<Rightarrow> Some x) xs"

text \<open>\<open>s.shift(1)\<close>: every cell moves one place down, the first becomes NaN.\<close>

definition shift :: "series \<Rightarrow> series" where
  "shift xs = take (length xs) (None # xs)"

definition eq_scalar :: "series \<Rightarrow> real \<Rightarrow> bool list" where
  "eq_scalar xs v = map (\<lambda>c. c = Some v) xs"

definition and_mask :: "bool list \<Rightarrow> bool list \<Rightarrow> bool list" where
  "and_mask a b = map2 (\<and>) a b"

text \<open>
  Arithmetic on cells. NaN propagates. A quotient by zero is not a finite number
  (NaN for \<open>0/0\<close>, an infinity otherwise) and is written \<open>None\<close>.
\<close>

fun cell_div :: "cell \<Rightarrow> cell \<Rightarrow> cell" where
  "cell_div (Some a) (Some b) = (if b = 0 then None else Some (a / b))"
| "cell_div _ _ = None"

fun cell_mul :: "cell \<Rightarrow> cell \<Rightarrow> cell" where
  "cell_mul (Some a) (Some b) = Some (a * b)"
| "cell_mul _ _ = None"

definition sub_scalar :: "series \<Rightarrow> real \<Rightarrow> series" where
  "sub_scalar xs v = map (map_option (\<lambda>x. x - v)) xs"

text \<open>\<open>s.pct_change()\<close>: forward fill, then \<open>s / s.shift(1) - 1\<close>.\<close>

definition pct_change :: "series \<Rightarrow> series" where
  "pct_change xs = (let d = ffill xs in sub_scalar (map2 cell_div d (shift d)) 1)"

section \<open>The signal engine\<close>

definition calculate_signals :: "nat \<Rightarrow> nat \<Rightarrow> 'd dataframe \<Rightarrow> 'd result" where
  "calculate_signals short_window long_window df =
     with_col df ''Close'' (\<lambda>close1.
       let df1 = setitem df (sma_name short_window) (rolling_mean short_window close1) in
       with_col df1 ''Close'' (\<lambda>close2.
         let df2 = setitem df1 (sma_name long_window) (rolling_mean long_window close2);
             df3 = setitem df2 ''Signal'' (replicate (length (index df2)) (Some 0)) in
         with_col df3 (sma_name short_window) (\<lambda>short_sma.
           with_col df3 (sma_name long_window) (\<lambda>long_sma.
             with_col df3 ''Signal'' (\<lambda>sig0.
               let df4 = setitem df3 ''Signal'' (loc_set (gt_series short_sma long_sma) 1 sig0) in
               with_col df4 ''Signal'' (\<lambda>signal.
                 let df5 = setitem df4 ''Position'' (replace_ffill 0 signal) in
                 with_col df5 ''Position'' (\<lambda>position.
                   Inr (setitem df5 ''Position'' (fillna 0 position)))))))))"

text \<open>
  \<open>plot_signals\<close> draws a figure. The figure is kept as what is drawn on it: the
  title, the three curves with their labels, and the two sets of scatter points, each
  point a date with the close on that date. The buy and sell masks are the expressions
  of its first two lines; \<open>df[mask]\<close> keeps the rows where the mask is true.
\<close>

definition buy_signals :: "series \<Rightarrow> bool list" where
  "buy_signals signal = and_mask (eq_scalar signal 1) (eq_scalar (shift signal) 0)"

definition sell_signals :: "series \<Rightarrow> bool list" where
  "sell_signals signal = and_mask (eq_scalar signal 0) (eq_scalar (shift signal) 1)"

fun select :: "bool list \<Rightarrow> 'a list \<Rightarrow> 'a list" where
  "select (m # ms) (x # xs) = (if m then x # select ms xs else select ms xs)"
| "select _ _ = []"

record 'd figure =
  title :: string
  curves :: "(string \<times> series) list"
  buy_points :: "('d \<times> cell) list"
  sell_points :: "('d \<times> cell) list"

definition plot_signals :: "'d dataframe \<Rightarrow> string \<Rightarrow> nat \<Rightarrow> nat \<Rightarrow> error + 'd figure" where
  "plot_signals df ticker short_window long_window =
     (case map_of (columns df) ''Signal'' of
        None \<Rightarrow> Inl (KeyError ''Signal'')
      | Some signal \<Rightarrow>
          let buy = buy_signals signal; sell = sell_signals signal in
          (case map_of (columns df) ''Close'' of
             None \<Rightarrow> Inl (KeyError ''Close'')
           | Some close \<Rightarrow>
               (case map_of (columns df) (sma_name short_window) of
                  None \<Rightarrow> Inl (KeyError (sma_name short_window))
                | Some short_sma \<Rightarrow>
                    (case map_of (columns df) (sma_name long_window) of
                       None \<Rightarrow> Inl (KeyError (sma_name long_window))
                     | Some long_sma \<Rightarrow>
                         Inr \<lparr>title = ticker @ '' Strategy: SMA Crossover Buy/Sell Signals'',
                              curves = [(ticker @ '' Close Price'', close),
                                        (''SMA '' @ str_nat short_window, short_sma),
                                        (''SMA '' @ str_nat long_window, long_sma)],
                              buy_points = zip (select buy (index df)) (select buy close),
                              sell_points = zip (select sell (index df)) (select sell close)\<rparr>))))"

section \<open>The return engine\<close>

definition calculate_returns :: "'d dataframe \<Rightarrow> 'd result" where
  "calculate_returns df =
     with_col df ''Close'' (\<lambda>close.
       let df1 = setitem df ''Daily Return'' (pct_change close) in
       with_col df1 ''Daily Return'' (\<lambda>daily.
         with_col df1 ''Position'' (\<lambda>position.
           Inr (setitem df1 ''Strategy Return'' (map2 cell_mul daily position)))))"

section \<open>The performance analyzer\<close>

text \<open>
  The report is text. The five numbers printed into it are kept here as numbers (their
  rendering with two decimals is not modelled); the text of the placeholder is kept
  as it is.
\<close>

record metrics =
  label :: string
  cumulative_return :: real
  annualized_return :: cell
  annualized_volatility :: cell
  sharpe_ratio :: cell
  max_drawdown :: cell

datatype report = NotEnoughData string | Numbers metrics

definition newline :: char where
  "newline = CHR 0x0A"

definition not_enough_text :: "string \<Rightarrow> string" where
  "not_enough_text name =
     ''Performance Report - '' @ name @ [newline] @ replicate 40 (CHR ''='')
       @ [newline] @ ''Not enough data for calculation.'' @ [newline]
       @ replicate 40 (CHR ''='') @ [newline]"

fun cumprod_from :: "real \<Rightarrow> real list \<Rightarrow> real list" where
  "cumprod_from acc [] = []"
| "cumprod_from acc (x # xs) = (acc * x) # cumprod_from (acc * x) xs"

definition cumprod :: "real list \<Rightarrow> real list" where
  "cumprod xs = cumprod_from 1 xs"

fun cummax_from :: "real \<Rightarrow> real list \<Rightarrow> real list" where
  "cummax_from m [] = []"
| "cummax_from m (x # xs) = max m x # cummax_from (max m x) xs"

definition cummax :: "real list \<Rightarrow> real list" where
  "cummax xs = (case xs of [] \<Rightarrow> [] | x # ys \<Rightarrow> x # cummax_from x ys)"

text \<open>The sample standard deviation (one degree of freedom less); NaN below two values.\<close>

definition std :: "real list \<Rightarrow> cell" where
  "std xs =
     (let n = length xs; m = sum_list xs / real n
      in if n < 2 then None
         else Some (sqrt (sum_list (map (\<lambda>x. (x - m)\<^sup>2) xs) / real (n - 1))))"

text \<open>
  \<open>b ** e\<close> on floats: a negative base has a power only for a whole exponent, and
  zero to a negative exponent is not finite.
\<close>

definition float_pow :: "real \<Rightarrow> real \<Rightarrow> cell" where
  "float_pow b e =
     (if 0 < b then Some (b powr e)
      else if b = 0 then (if 0 < e then Some 0 else if e = 0 then Some 1 else None)
      else if e = of_int \<lfloor>e\<rfloor> then Some (power_int b \<lfloor>e\<rfloor>)
      else None)"

text \<open>
  The division of two scalars. Python raises on a zero divisor (a numpy scalar gives
  a non-finite value and a warning instead); the model takes the raise, the stricter of
  the two.
\<close>

definition py_div :: "cell \<Rightarrow> cell \<Rightarrow> error + cell" where
  "py_div a b =
     (if b = Some 0 then Inl ZeroDivisionError
      else Inr (case (a, b) of (Some x, Some y) \<Rightarrow> Some (x / y) | _ \<Rightarrow> None))"

text \<open>\<open>s.min()\<close>: the least of the defined cells, NaN when there is none.\<close>

definition series_min :: "series \<Rightarrow> cell" where
  "series_min xs = (case dropna xs of [] \<Rightarrow> None | y # ys \<Rightarrow> Some (fold min ys y))"

definition drawdown_of :: "real list \<Rightarrow> series" where
  "drawdown_of daily_returns =
     (let cumulative = cumprod (map (\<lambda>r. 1 + r) daily_returns);
          peak = cummax cumulative
      in map2 cell_div (map2 (\<lambda>c p. Some (c - p)) cumulative peak) (map Some peak))"

definition get_performance_report :: "series \<Rightarrow> string \<Rightarrow> error + report" where
  "get_performance_report returns name =
     (let daily_returns = dropna returns in
      if length daily_returns < 2 then Inr (NotEnoughData (not_enough_text name))
      else
        let cumulative_return = prod_list (map (\<lambda>r. 1 + r) daily_returns) - 1;
            annualized_return =
              (if length daily_returns > 252
               then map_option (\<lambda>p. p - 1)
                      (float_pow (1 + cumulative_return) (252 / real (length daily_returns)))
               else Some cumulative_return);
            annualized_volatility = map_option (\<lambda>s. s * sqrt 252) (std daily_returns)
        in case (if annualized_volatility \<noteq> Some 0
                 then py_div annualized_return annualized_volatility
                 else Inr (Some 0)) of
             Inl e \<Rightarrow> Inl e
           | Inr sharpe \<Rightarrow>
               Inr (Numbers \<lparr>label = name,
                              cumulative_return = cumulative_return,
                              annualized_return = annualized_return,
                              annualized_volatility = annualized_volatility,
                              sharpe_ratio = sharpe,
                              max_drawdown = series_min (drawdown_of daily_returns)\<rparr>))"

section \<open>Calls on the caller's table\<close>

text \<open>
  Both engines assign columns on the table they are given and return that same table.
  A heap of tables makes this visible: the call works on the table at an address,
  leaves its result there, and returns the address.
\<close>

type_synonym 'd heap = "nat \<Rightarrow> 'd dataframe"

definition in_place :: "('d dataframe \<Rightarrow> 'd result) \<Rightarrow> nat \<Rightarrow> 'd heap \<Rightarrow> 'd heap \<times> (error + nat)" where
  "in_place f r h =
     (case f (h r) of
        Inl (e, df') \<Rightarrow> (h(r := df'), Inl e)
      | Inr df' \<Rightarrow> (h(r := df'), Inr r))"

definition calculate_signals_call :: "nat \<Rightarrow> nat \<Rightarrow> nat \<Rightarrow> 'd heap \<Rightarrow> 'd heap \<times> (error + nat)" where
  "calculate_signals_call short_window long_window = in_place (calculate_signals short_window long_window)"

definition calculate_returns_call :: "nat \<Rightarrow> 'd heap \<Rightarrow> 'd heap \<times> (error + nat)" where
  "calculate_returns_call = in_place calculate_returns"

section \<open>Derived columns and the specification's wording\<close>

text \<open>
  The signal and position columns as \<open>calculate_signals\<close> builds them from the close
  column of a table with \<open>n\<close> rows: the expressions it assigns, put together.
\<close>

definition signal_col :: "nat \<Rightarrow> nat \<Rightarrow> nat \<Rightarrow> series \<Rightarrow> series" where
  "signal_col sw lw n close =
     loc_set (gt_series (rolling_mean sw close) (rolling_mean lw close)) 1 (replicate n (Some 0))"

definition position_col :: "nat \<Rightarrow> nat \<Rightarrow> nat \<Rightarrow> series \<Rightarrow> series" where
  "position_col sw lw n close = fillna 0 (replace_ffill 0 (signal_col sw lw n close))"

text \<open>
  The position as the specification words it: the signal where both averages are
  defined, else the last signal computed so far, and Flat before any was computed.
\<close>

fun spec_position_from :: "cell \<Rightarrow> series \<Rightarrow> series \<Rightarrow> series \<Rightarrow> series" where
  "spec_position_from held (s # ss) (l # ls) (g # gs) =
     (if s \<noteq> None \<and> l \<noteq> None then g # spec_position_from g ss ls gs
      else held # spec_position_from held ss ls gs)"
| "spec_position_from held _ _ _ = []"

definition spec_position :: "series \<Rightarrow> series \<Rightarrow> series \<Rightarrow> series" where
  "spec_position short_sma long_sma signal = spec_position_from (Some 0) short_sma long_sma signal"

text \<open>
  The drawdown as the specification words it: wealth \<open>W i\<close> is the product of the first
  \<open>i + 1\<close> growth factors, the peak \<open>P i\<close> the largest wealth so far.
\<close>

definition spec_wealth :: "real list \<Rightarrow> nat \<Rightarrow> real" where
  "spec_wealth rs i = prod_list (map (\<lambda>r. 1 + r) (take (Suc i) rs))"

definition spec_peak :: "real list \<Rightarrow> nat \<Rightarrow> real" where
  "spec_peak rs i = Max (set (map (spec_wealth rs) [0..<Suc i]))"

definition spec_drawdown :: "real list \<Rightarrow> nat \<Rightarrow> real" where
  "spec_drawdown rs i = (spec_wealth rs i - spec_peak rs i) / spec_peak rs i"

text \<open>A heap whose tables all hold five closes, for the examples below.\<close>

definition example_frame :: "nat dataframe" where
  "example_frame =
     \<lparr>index = [0, 1, 2, 3, 4],
      columns = [(''Close'', [Some 1, Some 1, Some 4, Some 1, Some 1])]\<rparr>"

definition example_heap :: "nat heap" where
  "example_heap r = example_frame"

text \<open>The example table after the signal engine has run on it with windows 2 and 3.\<close>

definition signalled_frame :: "nat dataframe" where
  "signalled_frame =
     \<lparr>index = [0, 1, 2, 3, 4],
      columns =
        [(''Close'', [Some 1, Some 1, Some 4, Some 1, Some 1]),
         (''SMA2'', [None, Some 1, Some (5/2), Some (5/2), Some 1]),
         (''SMA3'', [None, None, Some 2, Some 2, Some 2]),
         (''Signal'', [Some 0, Some 0, Some 1, Some 1, Some 0]),
         (''Position'', [Some 0, Some 0, Some 1, Some 1, Some 1])]\<rparr>"

text \<open>A caller's heap: the table at every address holds closes and a volume column.\<close>

definition caller_frame :: "nat dataframe" where
  "caller_frame =
     \<lparr>index = [0, 1, 2, 3, 4],
      columns = [(''Close'', [Some 1, Some 1, Some 4, Some 1, Some 1]),
                 (''Volume'', [Some 10, Some 20, Some 30, Some 40, Some 50])]\<rparr>"

definition caller_heap :: "nat heap" where
  "caller_heap r = caller_frame"

definition signalled_heap :: "nat heap" where
  "signalled_heap = fst (calculate_signals_call 2 3 0 caller_heap)"

text \<open>A table with closes and a position, for the return engine.\<close>

definition returns_frame :: "nat dataframe" where
  "returns_frame = \<lparr>index = [0, 1, 2],
      columns = [(''Close'', [Some 1, Some 2, Some 2]), (''Position'', [Some 0, Some 1, Some 0])]\<rparr>"

section \<open>Column names\<close>

lemma digit_val_char: "d < 10 \<Longrightarrow> digit_val (digit_char d) = d"
proof -
  assume "d < 10"
  then have "d = 0 \<or> d = 1 \<or> d = 2 \<or> d = 3 \<or> d = 4 \<or> d = 5 \<or> d = 6 \<or> d = 7 \<or> d = 8 \<or> d = 9"
    by arith
  then show ?thesis
    by (elim disjE) (simp_all add: digit_val_def digit_char_def)
qed
lemma nat_str_snoc: "nat_str (s @ [c]) = 10 * nat_str s + digit_val c"
  by (simp add: nat_str_def)
lemma nat_str_str_nat: "nat_str (str_nat n) = n"
proof (induction n rule: str_nat.induct)
  case (1 n)
  show ?case
  proof (cases "n < 10")
    case True
    then have "str_nat n = [digit_char n]" by (subst str_nat.simps) simp
    with True show ?thesis by (simp add: nat_str_def digit_val_char)
  next
    case False
    then have "str_nat n = str_nat (n div 10) @ [digit_char (n mod 10)]" by (subst str_nat.simps) simp
    with False 1 show ?thesis
      by (simp add: nat_str_snoc digit_val_char)
  qed
qed
lemma sma_name_inj: "sma_name a = sma_name b \<Longrightarrow> a = b"
  by (metis nat_str_str_nat sma_name_def same_append_eq)
lemma sma_name_neq [simp]: "sma_name a \<noteq> ''Close''" "sma_name a \<noteq> ''Signal''" "sma_name a \<noteq> ''Position''"
   "''Close'' \<noteq> sma_name a" "''Signal'' \<noteq> sma_name a" "''Position'' \<noteq> sma_name a"
  by (auto simp: sma_name_def)

lemma sma_name_eq_iff [simp]: "sma_name a = sma_name b \<longleftrightarrow> a = b"
  using sma_name_inj by auto

lemma calculate_signals_run:
  assumes "map_of (columns df) ''Close'' = Some close"
  shows "\<exists>df'. calculate_signals sw lw df = Inr df' \<and> index df' = index df
      \<and> map_of (columns df') ''Close'' = Some close
      \<and> map_of (columns df') (sma_name sw) = Some (rolling_mean sw close)
      \<and> map_of (columns df') (sma_name lw) = Some (rolling_mean lw close)
      \<and> map_of (columns df') ''Signal'' = Some (signal_col sw lw (length (index df)) close)
      \<and> map_of (columns df') ''Position'' = Some (position_col sw lw (length (index df)) close)
      \<and> (\<forall>n. n \<notin> {sma_name sw, sma_name lw, ''Signal'', ''Position''} \<longrightarrow>
            map_of (columns df') n = map_of (columns df) n)"
  using assms
  by (cases "sw = lw")
     (simp_all add: calculate_signals_def with_col_def setitem_def update_conv' Let_def
        signal_col_def position_col_def)

lemma dropna_map_Some [simp]: "dropna (map Some cs) = cs"
  by (induction cs) simp_all

lemma length_rolling_mean [simp]: "length (rolling_mean w xs) = length xs"
  by (simp add: rolling_mean_def)

lemma rolling_mean_nth:
  assumes "i < length cs"
  shows "rolling_mean w (map Some cs) ! i =
           (if 0 < w \<and> w \<le> Suc i
            then Some (sum_list (drop (Suc i - w) (take (Suc i) cs)) / real w) else None)"
proof -
  have "drop (Suc i - w) (take (Suc i) (map Some cs)) = map Some (drop (Suc i - w) (take (Suc i) cs))"
    by (simp add: take_map drop_map)
  moreover have "length (drop (Suc i - w) (take (Suc i) cs)) = min w (Suc i)"
    using assms by auto
  ultimately show ?thesis
    using assms by (auto simp: rolling_mean_def window_mean_def Let_def)
qed

lemma length_signal_col [simp]: "length (signal_col sw lw (length close) close) = length close"
  by (simp add: signal_col_def loc_set_def gt_series_def)

lemma signal_col_nth:
  "i < length close \<Longrightarrow>
   signal_col sw lw (length close) close ! i =
     (if cell_gt (rolling_mean sw close ! i) (rolling_mean lw close ! i) then Some 1 else Some 0)"
  by (simp add: signal_col_def loc_set_def gt_series_def)

lemma cell_gt_iff: "cell_gt x y \<longleftrightarrow> (\<exists>a b. x = Some a \<and> y = Some b \<and> a > b)"
  by (cases x; cases y) simp_all

lemma signal_col_binary: "set (signal_col sw lw n close) \<subseteq> {Some 0, Some 1}"
  by (auto simp: signal_col_def loc_set_def set_zip split: if_splits)

lemma length_pad_from [simp]: "length (pad_from m p xs) = length xs"
  by (induction xs arbitrary: p) simp_all

lemma pad_after_one:
  "set xs \<subseteq> {Some 0, Some 1} \<Longrightarrow>
   pad_from (\<lambda>c. c = Some 0) (Some (Some 1)) xs = replicate (length xs) (Some 1)"
  by (induction xs) auto

lemma replace_ffill_binary_nth:
  "set xs \<subseteq> {Some 0, Some 1} \<Longrightarrow> j < length xs \<Longrightarrow>
   replace_ffill 0 xs ! j = (if \<exists>i\<le>j. xs ! i = Some 1 then Some 1 else Some 0)"
  unfolding replace_ffill_def
proof (induction xs arbitrary: j)
  case Nil
  then show ?case by simp
next
  case (Cons x xs)
  from Cons.prems have x: "x = Some 0 \<or> x = Some 1" and xs: "set xs \<subseteq> {Some 0, Some 1}" by auto
  from x show ?case
  proof
    assume x1: "x = Some 1"
    then have "(x # xs) ! 0 = Some 1" by simp
    then have ex: "\<exists>i\<le>j. (x # xs) ! i = Some 1" by blast
    have "pad_from (\<lambda>c. c = Some 0) None (x # xs) = Some 1 # replicate (length xs) (Some 1)"
      using x1 xs by (simp add: pad_after_one)
    then show ?thesis using ex Cons.prems(2) by (simp add: nth_Cons')
  next
    assume x0: "x = Some 0"
    show ?thesis
    proof (cases j)
      case 0
      then show ?thesis using x0 by simp
    next
      case (Suc k)
      then have k: "k < length xs" using Cons.prems(2) by simp
      have "(\<exists>i\<le>Suc k. (x # xs) ! i = Some 1) \<longleftrightarrow> (\<exists>i\<le>k. xs ! i = Some 1)"
      proof
        assume "\<exists>i\<le>Suc k. (x # xs) ! i = Some 1"
        then obtain i where i: "i \<le> Suc k" "(x # xs) ! i = Some 1" by blast
        with x0 obtain i' where "i = Suc i'" by (cases i) auto
        with i show "\<exists>i\<le>k. xs ! i = Some 1" by auto
      next
        assume "\<exists>i\<le>k. xs ! i = Some 1"
        then obtain i where "i \<le> k" "xs ! i = Some 1" by blast
        then have "Suc i \<le> Suc k" "(x # xs) ! Suc i = Some 1" by auto
        then show "\<exists>i\<le>Suc k. (x # xs) ! i = Some 1" by blast
      qed
      then show ?thesis using x0 Suc Cons.IH[OF xs k] by simp
    qed
  qed
qed

lemma fillna_defined: "None \<notin> set xs \<Longrightarrow> fillna v xs = xs"
proof (induction xs)
  case Nil
  then show ?case by (simp add: fillna_def)
next
  case (Cons a xs)
  then obtain y where "a = Some y" by (cases a) auto
  with Cons show ?case by (simp add: fillna_def)
qed

lemma replace_ffill_binary_set:
  assumes "set xs \<subseteq> {Some 0, Some 1}"
  shows "set (replace_ffill 0 xs) \<subseteq> {Some 0, Some 1}"
proof
  fix c assume "c \<in> set (replace_ffill 0 xs)"
  then obtain j where j: "j < length xs" "c = replace_ffill 0 xs ! j"
    by (auto simp: in_set_conv_nth replace_ffill_def)
  then show "c \<in> {Some 0, Some 1}"
    using replace_ffill_binary_nth[OF assms j(1)] by auto
qed

lemma position_col_nth:
  assumes "j < length close"
  shows "position_col sw lw (length close) close ! j =
     (if \<exists>i\<le>j. signal_col sw lw (length close) close ! i = Some 1 then Some 1 else Some 0)"
proof -
  let ?s = "signal_col sw lw (length close) close"
  have b: "set ?s \<subseteq> {Some 0, Some 1}" by (rule signal_col_binary)
  have "None \<notin> set (replace_ffill 0 ?s)" using replace_ffill_binary_set[OF b] by auto
  then have "position_col sw lw (length close) close = replace_ffill 0 ?s"
    by (simp add: position_col_def fillna_defined)
  then show ?thesis using replace_ffill_binary_nth[OF b, of j] assms by simp
qed

lemma length_position_col [simp]: "length (position_col sw lw (length close) close) = length close"
  by (simp add: position_col_def fillna_def replace_ffill_def)


section \<open>The worked example\<close>

lemma example_names: "sma_name 2 = ''SMA2''" "sma_name 3 = ''SMA3''"
  by (simp_all add: sma_name_def str_nat.simps digit_char_def)

lemma example_means:
  "rolling_mean 2 [Some 1, Some 1, Some 4, Some 1, Some 1] = [None, Some 1, Some (5/2), Some (5/2), Some 1]"
  "rolling_mean 3 [Some 1, Some 1, Some 4, Some 1, Some 1] = [None, None, Some 2, Some 2, Some 2]"
  by (simp_all add: rolling_mean_def window_mean_def upt_rec)

lemma example_signals:
  "calculate_signals 2 3 example_frame =
     Inr \<lparr>index = [0, 1, 2, 3, 4],
          columns =
            [(''Close'', [Some 1, Some 1, Some 4, Some 1, Some 1]),
             (''SMA2'', [None, Some 1, Some (5/2), Some (5/2), Some 1]),
             (''SMA3'', [None, None, Some 2, Some 2, Some 2]),
             (''Signal'', [Some 0, Some 0, Some 1, Some 1, Some 0]),
             (''Position'', [Some 0, Some 0, Some 1, Some 1, Some 1])]\<rparr>"
  by (simp add: example_frame_def calculate_signals_def with_col_def setitem_def example_names
      example_means gt_series_def loc_set_def replace_ffill_def fillna_def)

lemma example_close:
  "map_of (columns example_frame) ''Close'' = Some (map Some [1, 1, 4, 1, 1])"
  "length (index example_frame) = length [1, 1, 4, 1, 1 :: real]"
  by (simp_all add: example_frame_def)

section \<open>Claims about the signal engine\<close>

text \<open>
  C1 (position is the forward fill of the signal; a Flat signal after a downward
  crossover makes the position Flat again). The code does not do this. On the closes
  1, 1, 4, 1, 1 with windows 2 and 3 both averages are defined from index 2 on and the
  signal is 0, 0, 1, 1, 0, so the position the specification words is 0, 0, 1, 1, 0;
  the code fills every 0 of the signal from the last 1 and yields 0, 0, 1, 1, 1.
\<close>

theorem position_masks_flat_signal:
  "calculate_signals 2 3 example_frame =
     Inr \<lparr>index = [0, 1, 2, 3, 4],
          columns =
            [(''Close'', [Some 1, Some 1, Some 4, Some 1, Some 1]),
             (''SMA2'', [None, Some 1, Some (5/2), Some (5/2), Some 1]),
             (''SMA3'', [None, None, Some 2, Some 2, Some 2]),
             (''Signal'', [Some 0, Some 0, Some 1, Some 1, Some 0]),
             (''Position'', [Some 0, Some 0, Some 1, Some 1, Some 1])]\<rparr>
   \<and> spec_position [None, Some 1, Some (5/2), Some (5/2), Some 1]
        [None, None, Some 2, Some 2, Some 2] [Some 0, Some 0, Some 1, Some 1, Some 0]
      = [Some 0, Some 0, Some 1, Some 1, Some 0]"
  using example_signals by (simp add: spec_position_def)


lemma signal_rule_nth:
  assumes i: "i < length closes"
  shows "(\<forall>a b. rolling_mean sw (map Some closes) ! i = Some a
                \<and> rolling_mean lw (map Some closes) ! i = Some b \<longrightarrow>
              (signal_col sw lw (length closes) (map Some closes) ! i = Some 1 \<longleftrightarrow> b < a)
              \<and> (a \<le> b \<longrightarrow> signal_col sw lw (length closes) (map Some closes) ! i = Some 0))
        \<and> (rolling_mean sw (map Some closes) ! i = None
             \<or> rolling_mean lw (map Some closes) ! i = None \<longrightarrow>
              signal_col sw lw (length closes) (map Some closes) ! i = Some 0)"
proof -
  have i': "i < length (map Some closes)" using i by simp
  have s: "signal_col sw lw (length closes) (map Some closes) ! i =
     (if cell_gt (rolling_mean sw (map Some closes) ! i) (rolling_mean lw (map Some closes) ! i)
      then Some 1 else Some 0)"
    using signal_col_nth[OF i', of sw lw] by simp
  show ?thesis unfolding s
    by (cases "rolling_mean sw (map Some closes) ! i"; cases "rolling_mean lw (map Some closes) ! i")
       auto
qed

text \<open>
  C2 (the signal is Long exactly where both averages are defined and the short one is
  strictly above the long one). For a table whose close column holds the closes, the
  call returns a table whose two average columns are defined exactly from the
  window's length on, as the mean of the last closes, and whose signal at every index
  is 1 iff the short average is strictly greater than the long one, 0 when they are
  equal or the short one is smaller, and 0 where either average is undefined. This
  holds for all windows, so in particular for valid ones.
\<close>

theorem signal_strict_crossover:
  assumes "map_of (columns df) ''Close'' = Some (map Some closes)"
    and "length (index df) = length closes"
  shows "\<exists>df' ss ls sg.
      calculate_signals sw lw df = Inr df'
    \<and> map_of (columns df') (sma_name sw) = Some ss
    \<and> map_of (columns df') (sma_name lw) = Some ls
    \<and> map_of (columns df') ''Signal'' = Some sg
    \<and> length ss = length closes \<and> length ls = length closes \<and> length sg = length closes
    \<and> (\<forall>i < length closes.
          ss ! i = (if 0 < sw \<and> sw \<le> Suc i
                    then Some (sum_list (drop (Suc i - sw) (take (Suc i) closes)) / real sw)
                    else None)
        \<and> ls ! i = (if 0 < lw \<and> lw \<le> Suc i
                    then Some (sum_list (drop (Suc i - lw) (take (Suc i) closes)) / real lw)
                    else None)
        \<and> (\<forall>a b. ss ! i = Some a \<and> ls ! i = Some b \<longrightarrow>
              (sg ! i = Some 1 \<longleftrightarrow> b < a) \<and> (a \<le> b \<longrightarrow> sg ! i = Some 0))
        \<and> (ss ! i = None \<or> ls ! i = None \<longrightarrow> sg ! i = Some 0))"
proof -
  let ?c = "map Some closes"
  let ?n = "length closes"
  let ?ss = "rolling_mean sw ?c" and ?ls = "rolling_mean lw ?c"
  let ?sg = "signal_col sw lw ?n ?c"
  from calculate_signals_run[OF assms(1), of sw lw] obtain df' where
    run: "calculate_signals sw lw df = Inr df'"
    and ss: "map_of (columns df') (sma_name sw) = Some ?ss"
    and ls: "map_of (columns df') (sma_name lw) = Some ?ls"
    and sg0: "map_of (columns df') ''Signal'' = Some (signal_col sw lw (length (index df)) ?c)"
    by blast
  have sg: "map_of (columns df') ''Signal'' = Some ?sg" using sg0 assms(2) by simp
  have l1: "length ?ss = ?n" and l2: "length ?ls = ?n" by simp_all
  have l3: "length ?sg = ?n" using length_signal_col[of sw lw ?c] by simp
  have each: "\<forall>i < ?n.
          ?ss ! i = (if 0 < sw \<and> sw \<le> Suc i
                    then Some (sum_list (drop (Suc i - sw) (take (Suc i) closes)) / real sw)
                    else None)
        \<and> ?ls ! i = (if 0 < lw \<and> lw \<le> Suc i
                    then Some (sum_list (drop (Suc i - lw) (take (Suc i) closes)) / real lw)
                    else None)
        \<and> (\<forall>a b. ?ss ! i = Some a \<and> ?ls ! i = Some b \<longrightarrow>
              (?sg ! i = Some 1 \<longleftrightarrow> b < a) \<and> (a \<le> b \<longrightarrow> ?sg ! i = Some 0))
        \<and> (?ss ! i = None \<or> ?ls ! i = None \<longrightarrow> ?sg ! i = Some 0)"
    using rolling_mean_nth[of _ closes sw] rolling_mean_nth[of _ closes lw]
      signal_rule_nth[of _ closes sw lw] by blast
  from run ss ls sg l1 l2 l3 each show ?thesis by blast
qed

theorem signal_strict_crossover_witness:
  "map_of (columns example_frame) ''Close'' = Some (map Some [1, 1, 4, 1, 1])
   \<and> length (index example_frame) = length [1, 1, 4, 1, 1 :: real]
   \<and> (\<exists>df' ss ls sg.
      calculate_signals 2 3 example_frame = Inr df'
    \<and> map_of (columns df') (sma_name 2) = Some ss
    \<and> map_of (columns df') (sma_name 3) = Some ls
    \<and> map_of (columns df') ''Signal'' = Some sg
    \<and> length ss = length [1, 1, 4, 1, 1 :: real]
    \<and> length ls = length [1, 1, 4, 1, 1 :: real]
    \<and> length sg = length [1, 1, 4, 1, 1 :: real]
    \<and> (\<forall>i < length [1, 1, 4, 1, 1 :: real].
          ss ! i = (if 0 < (2::nat) \<and> 2 \<le> Suc i
                    then Some (sum_list (drop (Suc i - 2) (take (Suc i) [1, 1, 4, 1, 1])) / real 2)
                    else None)
        \<and> ls ! i = (if 0 < (3::nat) \<and> 3 \<le> Suc i
                    then Some (sum_list (drop (Suc i - 3) (take (Suc i) [1, 1, 4, 1, 1])) / real 3)
                    else None)
        \<and> (\<forall>a b. ss ! i = Some a \<and> ls ! i = Some b \<longrightarrow>
              (sg ! i = Some 1 \<longleftrightarrow> b < a) \<and> (a \<le> b \<longrightarrow> sg ! i = Some 0))
        \<and> (ss ! i = None \<or> ls ! i = None \<longrightarrow> sg ! i = Some 0)))"
  by (intro conjI example_close signal_strict_crossover[OF example_close])

lemma position_col_mono:
  assumes "i \<le> j" "j < length close"
    and "position_col sw lw (length close) close ! i = Some 1"
  shows "position_col sw lw (length close) close ! j = Some 1"
proof -
  from assms have i: "i < length close" by simp
  from assms(3) position_col_nth[OF i, of sw lw]
  have "\<exists>k\<le>i. signal_col sw lw (length close) close ! k = Some 1"
    by (auto split: if_splits)
  then obtain k where "k \<le> i" "signal_col sw lw (length close) close ! k = Some 1" by blast
  with assms(1) have "\<exists>k\<le>j. signal_col sw lw (length close) close ! k = Some 1"
    using le_trans by blast
  then show ?thesis using position_col_nth[OF assms(2), of sw lw] by simp
qed

text \<open>
  C10 (once the position is Long it stays Long). For every table with a close column,
  the position column of the result holds only 0 and 1, is 1 at an index exactly when
  the signal was 1 at that index or at an earlier one, and so never returns to 0 after
  its first 1, whatever the later signals are.
\<close>

theorem position_never_returns_flat:
  assumes "map_of (columns df) ''Close'' = Some close"
    and "length (index df) = length close"
  shows "\<exists>df' sg pos.
      calculate_signals sw lw df = Inr df'
    \<and> map_of (columns df') ''Signal'' = Some sg
    \<and> map_of (columns df') ''Position'' = Some pos
    \<and> length sg = length close \<and> length pos = length close
    \<and> (\<forall>j < length close. pos ! j = Some 0 \<or> pos ! j = Some 1)
    \<and> (\<forall>j < length close. pos ! j = Some 1 \<longleftrightarrow> (\<exists>i\<le>j. sg ! i = Some 1))
    \<and> (\<forall>i j. i \<le> j \<and> j < length close \<and> pos ! i = Some 1 \<longrightarrow> pos ! j = Some 1)"
proof -
  let ?sg = "signal_col sw lw (length close) close"
  let ?pos = "position_col sw lw (length close) close"
  from calculate_signals_run[OF assms(1), of sw lw] obtain df' where
    run: "calculate_signals sw lw df = Inr df'"
    and sg0: "map_of (columns df') ''Signal'' = Some (signal_col sw lw (length (index df)) close)"
    and pos0: "map_of (columns df') ''Position'' = Some (position_col sw lw (length (index df)) close)"
    by blast
  have sg: "map_of (columns df') ''Signal'' = Some ?sg" using sg0 assms(2) by simp
  have pos: "map_of (columns df') ''Position'' = Some ?pos" using pos0 assms(2) by simp
  have l1: "length ?sg = length close" and l2: "length ?pos = length close" by simp_all
  have bin: "\<forall>j < length close. ?pos ! j = Some 0 \<or> ?pos ! j = Some 1"
    using position_col_nth[of _ close sw lw] by simp
  have iff: "\<forall>j < length close. ?pos ! j = Some 1 \<longleftrightarrow> (\<exists>i\<le>j. ?sg ! i = Some 1)"
    using position_col_nth[of _ close sw lw] by simp
  have mono: "\<forall>i j. i \<le> j \<and> j < length close \<and> ?pos ! i = Some 1 \<longrightarrow> ?pos ! j = Some 1"
    using position_col_mono[of _ _ close sw lw] by blast
  from run sg pos l1 l2 bin iff mono show ?thesis by blast
qed

lemma example_close_cells:
  "map_of (columns example_frame) ''Close'' = Some [Some 1, Some 1, Some 4, Some 1, Some 1]"
  "length (index example_frame) = length [Some 1, Some 1, Some 4, Some 1, Some (1::real)]"
  by (simp_all add: example_frame_def)

theorem position_never_returns_flat_witness:
  "map_of (columns example_frame) ''Close'' = Some [Some 1, Some 1, Some 4, Some 1, Some 1]
   \<and> length (index example_frame) = length [Some 1, Some 1, Some 4, Some 1, Some (1::real)]
   \<and> (\<exists>df' sg pos.
      calculate_signals 2 3 example_frame = Inr df'
    \<and> map_of (columns df') ''Signal'' = Some sg
    \<and> map_of (columns df') ''Position'' = Some pos
    \<and> length sg = length [Some 1, Some 1, Some 4, Some 1, Some (1::real)]
    \<and> length pos = length [Some 1, Some 1, Some 4, Some 1, Some (1::real)]
    \<and> (\<forall>j < length [Some 1, Some 1, Some 4, Some 1, Some (1::real)]. pos ! j = Some 0 \<or> pos ! j = Some 1)
    \<and> (\<forall>j < length [Some 1, Some 1, Some 4, Some 1, Some (1::real)].
          pos ! j = Some 1 \<longleftrightarrow> (\<exists>i\<le>j. sg ! i = Some 1))
    \<and> (\<forall>i j. i \<le> j \<and> j < length [Some 1, Some 1, Some 4, Some 1, Some (1::real)] \<and> pos ! i = Some 1
          \<longrightarrow> pos ! j = Some 1))"
  by (intro conjI example_close_cells position_never_returns_flat[OF example_close_cells])

section \<open>Claims about the crossover markers\<close>

lemma shift_nth: "i < length xs \<Longrightarrow> shift xs ! i = (if i = 0 then None else xs ! (i - 1))"
  by (simp add: shift_def nth_Cons')

lemma length_shift [simp]: "length (shift xs) = length xs"
  by (simp add: shift_def)

lemma zip_select:
  "length xs = length ms \<Longrightarrow> length ys = length ms \<Longrightarrow>
   zip (select ms xs) (select ms ys) = select ms (zip xs ys)"
proof (induction ms arbitrary: xs ys)
  case Nil
  then show ?case by simp
next
  case (Cons m ms)
  then obtain x xs' y ys' where "xs = x # xs'" "ys = y # ys'"
    by (metis length_Suc_conv)
  with Cons show ?case by simp
qed

lemma select_indices:
  "length zs = length ms \<Longrightarrow>
   select ms zs = map (\<lambda>i. zs ! i) (filter (\<lambda>i. ms ! i) [0..<length zs])"
proof (induction ms arbitrary: zs)
  case Nil
  then show ?case by simp
next
  case (Cons m ms)
  then obtain z zs' where zs: "zs = z # zs'" by (metis length_Suc_conv)
  with Cons.prems have l: "length zs' = length ms" by simp
  have u: "[0..<length zs] = 0 # map Suc [0..<length zs']"
    unfolding zs by (simp add: upt_conv_Cons map_Suc_upt del: upt_Suc)
  have sh: "map (\<lambda>i. (z # zs') ! i) (filter (\<lambda>i. (b # ms) ! i) (map Suc [0..<length zs']))
      = map (\<lambda>i. zs' ! i) (filter (\<lambda>i. ms ! i) [0..<length zs'])" for b
    by (simp add: filter_map comp_def)
  show ?case
  proof (cases m)
    case True
    have "select (m # ms) zs = z # select ms zs'" using True zs by simp
    also have "\<dots> = z # map (\<lambda>i. zs' ! i) (filter (\<lambda>i. ms ! i) [0..<length zs'])"
      using Cons.IH[OF l] by simp
    also have "\<dots> = map (\<lambda>i. zs ! i) (filter (\<lambda>i. (m # ms) ! i) [0..<length zs])"
      unfolding u using True sh[of m] by (simp add: zs)
    finally show ?thesis .
  next
    case False
    have "select (m # ms) zs = select ms zs'" using False zs by simp
    also have "\<dots> = map (\<lambda>i. zs' ! i) (filter (\<lambda>i. ms ! i) [0..<length zs'])"
      using Cons.IH[OF l] by simp
    also have "\<dots> = map (\<lambda>i. zs ! i) (filter (\<lambda>i. (m # ms) ! i) [0..<length zs])"
      unfolding u using False sh[of m] by (simp add: zs)
    finally show ?thesis .
  qed
qed

lemma buy_signals_nth:
  "i < length s \<Longrightarrow> buy_signals s ! i = (1 \<le> i \<and> s ! (i - 1) = Some 0 \<and> s ! i = Some 1)"
  by (auto simp: buy_signals_def and_mask_def eq_scalar_def shift_nth)

lemma sell_signals_nth:
  "i < length s \<Longrightarrow> sell_signals s ! i = (1 \<le> i \<and> s ! (i - 1) = Some 1 \<and> s ! i = Some 0)"
  by (auto simp: sell_signals_def and_mask_def eq_scalar_def shift_nth)

lemma length_buy_signals [simp]: "length (buy_signals s) = length s"
  by (simp add: buy_signals_def and_mask_def eq_scalar_def)

lemma length_sell_signals [simp]: "length (sell_signals s) = length s"
  by (simp add: sell_signals_def and_mask_def eq_scalar_def)

lemma buy_rows:
  assumes "length zs = length s"
  shows "select (buy_signals s) zs =
     map (\<lambda>i. zs ! i)
       (filter (\<lambda>i. 1 \<le> i \<and> s ! (i - 1) = Some 0 \<and> s ! i = Some 1) [0..<length s])"
proof -
  have "filter (\<lambda>i. buy_signals s ! i) [0..<length s]
      = filter (\<lambda>i. 1 \<le> i \<and> s ! (i - 1) = Some 0 \<and> s ! i = Some 1) [0..<length s]"
    by (rule filter_cong) (simp_all add: buy_signals_nth)
  then show ?thesis using select_indices[of zs "buy_signals s"] assms by simp
qed

lemma sell_rows:
  assumes "length zs = length s"
  shows "select (sell_signals s) zs =
     map (\<lambda>i. zs ! i)
       (filter (\<lambda>i. 1 \<le> i \<and> s ! (i - 1) = Some 1 \<and> s ! i = Some 0) [0..<length s])"
proof -
  have "filter (\<lambda>i. sell_signals s ! i) [0..<length s]
      = filter (\<lambda>i. 1 \<le> i \<and> s ! (i - 1) = Some 1 \<and> s ! i = Some 0) [0..<length s]"
    by (rule filter_cong) (simp_all add: sell_signals_nth)
  then show ?thesis using select_indices[of zs "sell_signals s"] assms by simp
qed


lemma plot_signals_needs_close:
  "map_of (columns df) ''Signal'' = Some s \<Longrightarrow> map_of (columns df) ''Close'' = None \<Longrightarrow>
   plot_signals df ticker short_window long_window = Inl (KeyError ''Close'')"
  by (simp add: plot_signals_def Let_def)

text \<open>
  C8 (buy and sell markers). For every signal column, the buy mask is true exactly at
  the indices \<open>i \<ge> 1\<close> with signal 0 at \<open>i - 1\<close> and 1 at \<open>i\<close>, the sell mask
  exactly at those with 1 at \<open>i - 1\<close> and 0 at \<open>i\<close>, and neither at index 0. On a
  table that holds the columns the function reads (signal, close and the two averages),
  the figure's buy points are the dates and closes of exactly those indices, in order,
  and so are its sell points. On the signal 0, 0, 1, 1, 0 there is one buy, at index 2,
  and one sell, at index 4.
\<close>

theorem crossover_markers:
  assumes "map_of (columns df) ''Signal'' = Some s"
    and "map_of (columns df) ''Close'' = Some close"
    and "map_of (columns df) (sma_name short_window) = Some short_sma"
    and "map_of (columns df) (sma_name long_window) = Some long_sma"
    and "length (index df) = length s"
    and "length close = length s"
  shows "length (buy_signals s) = length s
    \<and> length (sell_signals s) = length s
    \<and> (\<forall>i < length s. buy_signals s ! i = (1 \<le> i \<and> s ! (i - 1) = Some 0 \<and> s ! i = Some 1))
    \<and> (\<forall>i < length s. sell_signals s ! i = (1 \<le> i \<and> s ! (i - 1) = Some 1 \<and> s ! i = Some 0))
    \<and> (\<exists>fig. plot_signals df ticker short_window long_window = Inr fig
          \<and> buy_points fig =
               map (\<lambda>i. (index df ! i, close ! i))
                 (filter (\<lambda>i. 1 \<le> i \<and> s ! (i - 1) = Some 0 \<and> s ! i = Some 1) [0..<length s])
          \<and> sell_points fig =
               map (\<lambda>i. (index df ! i, close ! i))
                 (filter (\<lambda>i. 1 \<le> i \<and> s ! (i - 1) = Some 1 \<and> s ! i = Some 0) [0..<length s]))
    \<and> buy_signals [Some 0, Some 0, Some 1, Some 1, Some 0] = [False, False, True, False, False]
    \<and> sell_signals [Some 0, Some 0, Some 1, Some 1, Some 0] = [False, False, False, False, True]"
proof -
  let ?fig = "\<lparr>title = ticker @ '' Strategy: SMA Crossover Buy/Sell Signals'',
                curves = [(ticker @ '' Close Price'', close),
                          (''SMA '' @ str_nat short_window, short_sma),
                          (''SMA '' @ str_nat long_window, long_sma)],
                buy_points = zip (select (buy_signals s) (index df)) (select (buy_signals s) close),
                sell_points = zip (select (sell_signals s) (index df)) (select (sell_signals s) close)\<rparr>"
  have p: "plot_signals df ticker short_window long_window = Inr ?fig"
    using assms(1-4) by (simp add: plot_signals_def Let_def)
  have lz: "length (zip (index df) close) = length s" using assms(5,6) by simp
  have nz: "\<And>i. i < length s \<Longrightarrow> zip (index df) close ! i = (index df ! i, close ! i)"
    using assms(5,6) by simp
  have bp: "buy_points ?fig =
               map (\<lambda>i. (index df ! i, close ! i))
                 (filter (\<lambda>i. 1 \<le> i \<and> s ! (i - 1) = Some 0 \<and> s ! i = Some 1) [0..<length s])"
  proof -
    have "buy_points ?fig = select (buy_signals s) (zip (index df) close)"
      using assms(5,6) by (simp add: zip_select)
    also have "\<dots> = map (\<lambda>i. zip (index df) close ! i)
                 (filter (\<lambda>i. 1 \<le> i \<and> s ! (i - 1) = Some 0 \<and> s ! i = Some 1) [0..<length s])"
      by (rule buy_rows[OF lz])
    also have "\<dots> = map (\<lambda>i. (index df ! i, close ! i))
                 (filter (\<lambda>i. 1 \<le> i \<and> s ! (i - 1) = Some 0 \<and> s ! i = Some 1) [0..<length s])"
      by (rule map_cong) (simp_all add: nz)
    finally show ?thesis .
  qed
  have sp: "sell_points ?fig =
               map (\<lambda>i. (index df ! i, close ! i))
                 (filter (\<lambda>i. 1 \<le> i \<and> s ! (i - 1) = Some 1 \<and> s ! i = Some 0) [0..<length s])"
  proof -
    have "sell_points ?fig = select (sell_signals s) (zip (index df) close)"
      using assms(5,6) by (simp add: zip_select)
    also have "\<dots> = map (\<lambda>i. zip (index df) close ! i)
                 (filter (\<lambda>i. 1 \<le> i \<and> s ! (i - 1) = Some 1 \<and> s ! i = Some 0) [0..<length s])"
      by (rule sell_rows[OF lz])
    also have "\<dots> = map (\<lambda>i. (index df ! i, close ! i))
                 (filter (\<lambda>i. 1 \<le> i \<and> s ! (i - 1) = Some 1 \<and> s ! i = Some 0) [0..<length s])"
      by (rule map_cong) (simp_all add: nz)
    finally show ?thesis .
  qed
  have fig: "\<exists>fig. plot_signals df ticker short_window long_window = Inr fig
          \<and> buy_points fig =
               map (\<lambda>i. (index df ! i, close ! i))
                 (filter (\<lambda>i. 1 \<le> i \<and> s ! (i - 1) = Some 0 \<and> s ! i = Some 1) [0..<length s])
          \<and> sell_points fig =
               map (\<lambda>i. (index df ! i, close ! i))
                 (filter (\<lambda>i. 1 \<le> i \<and> s ! (i - 1) = Some 1 \<and> s ! i = Some 0) [0..<length s])"
    using p bp sp by (intro exI[of _ ?fig] conjI)
  have b: "\<forall>i < length s. buy_signals s ! i = (1 \<le> i \<and> s ! (i - 1) = Some 0 \<and> s ! i = Some 1)"
    by (simp add: buy_signals_nth)
  have sl: "\<forall>i < length s. sell_signals s ! i = (1 \<le> i \<and> s ! (i - 1) = Some 1 \<and> s ! i = Some 0)"
    by (simp add: sell_signals_nth)
  have eb: "buy_signals [Some 0, Some 0, Some 1, Some 1, Some 0] = [False, False, True, False, False]"
    by (simp add: buy_signals_def and_mask_def eq_scalar_def shift_def)
  have es: "sell_signals [Some 0, Some 0, Some 1, Some 1, Some 0] = [False, False, False, False, True]"
    by (simp add: sell_signals_def and_mask_def eq_scalar_def shift_def)
  show ?thesis
    by (intro conjI length_buy_signals length_sell_signals b sl fig eb es)
qed

lemma signalled_columns:
  "map_of (columns signalled_frame) ''Signal'' = Some [Some 0, Some 0, Some 1, Some 1, Some 0]"
  "map_of (columns signalled_frame) ''Close'' = Some [Some 1, Some 1, Some 4, Some 1, Some 1]"
  "map_of (columns signalled_frame) (sma_name 2) = Some [None, Some 1, Some (5/2), Some (5/2), Some 1]"
  "map_of (columns signalled_frame) (sma_name 3) = Some [None, None, Some 2, Some 2, Some 2]"
  "length (index signalled_frame) = length [Some 0, Some 0, Some 1, Some 1, Some (0::real)]"
  "length [Some 1, Some 1, Some 4, Some 1, Some (1::real)]
     = length [Some 0, Some 0, Some 1, Some 1, Some (0::real)]"
  by (simp_all add: signalled_frame_def example_names)

theorem crossover_markers_witness:
  "map_of (columns signalled_frame) ''Signal'' = Some [Some 0, Some 0, Some 1, Some 1, Some 0]
   \<and> map_of (columns signalled_frame) ''Close'' = Some [Some 1, Some 1, Some 4, Some 1, Some 1]
   \<and> map_of (columns signalled_frame) (sma_name 2) = Some [None, Some 1, Some (5/2), Some (5/2), Some 1]
   \<and> map_of (columns signalled_frame) (sma_name 3) = Some [None, None, Some 2, Some 2, Some 2]
   \<and> calculate_signals 2 3 example_frame = Inr signalled_frame
   \<and> (\<exists>fig. plot_signals signalled_frame ''AAPL'' 2 3 = Inr fig
          \<and> buy_points fig = [(2, Some 4)]
          \<and> sell_points fig = [(4, Some 1)])"
proof -
  note t = crossover_markers[OF signalled_columns, of "''AAPL''"]
  from t[THEN conjunct2, THEN conjunct2, THEN conjunct2, THEN conjunct2, THEN conjunct1]
  obtain fig where
    p: "plot_signals signalled_frame ''AAPL'' 2 3 = Inr fig"
    and b: "buy_points fig =
               map (\<lambda>i. (index signalled_frame ! i, [Some 1, Some 1, Some 4, Some 1, Some (1::real)] ! i))
                 (filter (\<lambda>i. 1 \<le> i \<and> [Some 0, Some 0, Some 1, Some 1, Some (0::real)] ! (i - 1) = Some 0
                                  \<and> [Some 0, Some 0, Some 1, Some 1, Some (0::real)] ! i = Some 1)
                    [0..<length [Some 0, Some 0, Some 1, Some 1, Some (0::real)]])"
    and s: "sell_points fig =
               map (\<lambda>i. (index signalled_frame ! i, [Some 1, Some 1, Some 4, Some 1, Some (1::real)] ! i))
                 (filter (\<lambda>i. 1 \<le> i \<and> [Some 0, Some 0, Some 1, Some 1, Some (0::real)] ! (i - 1) = Some 1
                                  \<and> [Some 0, Some 0, Some 1, Some 1, Some (0::real)] ! i = Some 0)
                    [0..<length [Some 0, Some 0, Some 1, Some 1, Some (0::real)]])"
    by blast
  have u: "[0..<length [Some 0, Some 0, Some 1, Some 1, Some (0::real)]] = [0, 1, 2, 3, 4]"
    by (simp add: upt_rec)
  have b': "buy_points fig = [(2, Some 4)]"
    unfolding b u by (simp add: signalled_frame_def)
  have s': "sell_points fig = [(4, Some 1)]"
    unfolding s u by (simp add: signalled_frame_def)
  have e: "calculate_signals 2 3 example_frame = Inr signalled_frame"
    by (simp add: example_signals signalled_frame_def)
  from p b' s' have "\<exists>fig. plot_signals signalled_frame ''AAPL'' 2 3 = Inr fig
          \<and> buy_points fig = [(2, Some 4)] \<and> sell_points fig = [(4, Some 1)]" by blast
  with e show ?thesis by (intro conjI signalled_columns(1-4))
qed

section \<open>Claims about the return engine\<close>

lemma pad_nan_defined: "pad_from (\<lambda>c. c = None) p (map Some cs) = map Some cs"
  by (induction cs arbitrary: p) simp_all

lemma ffill_map_Some [simp]: "ffill (map Some cs) = map Some cs"
  by (simp add: ffill_def pad_nan_defined)

lemma length_pct_change [simp]: "length (pct_change xs) = length xs"
  by (simp add: pct_change_def sub_scalar_def ffill_def Let_def)

lemma pct_change_nth:
  assumes "i < length cs" and "\<forall>c \<in> set cs. 0 < c"
  shows "pct_change (map Some cs) ! i =
           (if i = 0 then None else Some (cs ! i / cs ! (i - 1) - 1))"
proof (cases i)
  case 0
  with assms(1) show ?thesis
    by (simp add: pct_change_def sub_scalar_def shift_nth Let_def)
next
  case (Suc k)
  with assms have "cs ! k \<noteq> 0" by (metis Suc_lessD less_irrefl nth_mem)
  with Suc assms(1) show ?thesis
    by (simp add: pct_change_def sub_scalar_def shift_nth Let_def)
qed

lemma calculate_returns_run:
  assumes "map_of (columns df) ''Close'' = Some close"
    and "map_of (columns df) ''Position'' = Some pos"
  shows "\<exists>df'. calculate_returns df = Inr df' \<and> index df' = index df
      \<and> map_of (columns df') ''Daily Return'' = Some (pct_change close)
      \<and> map_of (columns df') ''Strategy Return'' = Some (map2 cell_mul (pct_change close) pos)
      \<and> (\<forall>n. n \<notin> {''Daily Return'', ''Strategy Return''} \<longrightarrow>
            map_of (columns df') n = map_of (columns df) n)"
  using assms
  by (simp add: calculate_returns_def with_col_def setitem_def update_conv' Let_def)

text \<open>
  C7 (daily and strategy returns). For a table with at least one close, all closes
  positive, and any position column of the same length: the daily return is undefined at
  index 0 and is \<open>close i / close (i - 1) - 1\<close> at every later index; the strategy
  return is the product of the daily return and the position at every index (undefined
  where the daily return is), so it is the daily return where the position is 1 and
  exactly 0 where the position is 0 and the daily return is defined; on a constant
  price series every defined daily return is 0.
\<close>

theorem returns_follow_position:
  assumes "map_of (columns df) ''Close'' = Some (map Some closes)"
    and "map_of (columns df) ''Position'' = Some pos"
    and "length pos = length closes"
    and "1 \<le> length closes"
    and "\<forall>c \<in> set closes. 0 < c"
  shows "\<exists>df' dr sr.
      calculate_returns df = Inr df'
    \<and> map_of (columns df') ''Daily Return'' = Some dr
    \<and> map_of (columns df') ''Strategy Return'' = Some sr
    \<and> length dr = length closes \<and> length sr = length closes
    \<and> dr ! 0 = None
    \<and> (\<forall>i. 1 \<le> i \<and> i < length closes \<longrightarrow> dr ! i = Some (closes ! i / closes ! (i - 1) - 1))
    \<and> (\<forall>i < length closes. sr ! i = cell_mul (dr ! i) (pos ! i))
    \<and> (\<forall>i < length closes. pos ! i = Some 1 \<longrightarrow> sr ! i = dr ! i)
    \<and> (\<forall>i. 1 \<le> i \<and> i < length closes \<and> pos ! i = Some 0 \<longrightarrow> sr ! i = Some 0)
    \<and> ((\<forall>i < length closes. closes ! i = closes ! 0) \<longrightarrow>
          (\<forall>i. 1 \<le> i \<and> i < length closes \<longrightarrow> dr ! i = Some 0))"
proof -
  let ?dr = "pct_change (map Some closes)"
  let ?sr = "map2 cell_mul ?dr pos"
  let ?n = "length closes"
  from calculate_returns_run[OF assms(1,2)] obtain df' where
    run: "calculate_returns df = Inr df'"
    and dr: "map_of (columns df') ''Daily Return'' = Some ?dr"
    and sr: "map_of (columns df') ''Strategy Return'' = Some ?sr"
    by blast
  have l1: "length ?dr = ?n" by simp
  have l2: "length ?sr = ?n" using assms(3) by simp
  have nth: "\<And>i. i < ?n \<Longrightarrow> ?dr ! i = (if i = 0 then None else Some (closes ! i / closes ! (i - 1) - 1))"
    using pct_change_nth[OF _ assms(5)] by blast
  have "0 < ?n" using assms(4) by (cases closes) simp_all
  then have d0: "?dr ! 0 = None" using nth[of 0] by simp
  have di: "\<forall>i. 1 \<le> i \<and> i < ?n \<longrightarrow> ?dr ! i = Some (closes ! i / closes ! (i - 1) - 1)"
    using nth by simp
  have si: "\<forall>i < ?n. ?sr ! i = cell_mul (?dr ! i) (pos ! i)"
    using assms(3) by simp
  have long: "\<forall>i < ?n. pos ! i = Some 1 \<longrightarrow> ?sr ! i = ?dr ! i"
  proof (intro allI impI)
    fix i assume i: "i < ?n" and p: "pos ! i = Some 1"
    show "?sr ! i = ?dr ! i" using si i p by (cases "?dr ! i") simp_all
  qed
  have flat: "\<forall>i. 1 \<le> i \<and> i < ?n \<and> pos ! i = Some 0 \<longrightarrow> ?sr ! i = Some 0"
    using si di by simp
  have const: "(\<forall>i < ?n. closes ! i = closes ! 0) \<longrightarrow>
          (\<forall>i. 1 \<le> i \<and> i < ?n \<longrightarrow> ?dr ! i = Some 0)"
  proof (intro allI impI)
    fix i assume c: "\<forall>i < ?n. closes ! i = closes ! 0" and i: "1 \<le> i \<and> i < ?n"
    from i have "i - 1 < ?n" by arith
    with c i have e: "closes ! i = closes ! 0" "closes ! (i - 1) = closes ! 0" by blast+
    have "0 < closes ! 0" using assms(4,5) by (metis One_nat_def Suc_le_lessD nth_mem)
    with e di i show "?dr ! i = Some 0" by simp
  qed
  from run dr sr l1 l2 d0 di si long flat const show ?thesis by blast
qed

lemma returns_frame_cols:
  "map_of (columns returns_frame) ''Close'' = Some (map Some [1, 2, 2])"
  "map_of (columns returns_frame) ''Position'' = Some [Some 0, Some 1, Some 0]"
  "length [Some 0, Some 1, Some (0::real)] = length [1, 2, 2 :: real]"
  "1 \<le> length [1, 2, 2 :: real]"
  "\<forall>c \<in> set [1, 2, 2 :: real]. 0 < c"
  by (simp_all add: returns_frame_def)

theorem returns_follow_position_witness:
  "map_of (columns returns_frame) ''Close'' = Some (map Some [1, 2, 2])
   \<and> map_of (columns returns_frame) ''Position'' = Some [Some 0, Some 1, Some 0]
   \<and> length [Some 0, Some 1, Some (0::real)] = length [1, 2, 2 :: real]
   \<and> 1 \<le> length [1, 2, 2 :: real]
   \<and> (\<exists>df' dr sr.
      calculate_returns returns_frame = Inr df'
    \<and> map_of (columns df') ''Daily Return'' = Some dr
    \<and> map_of (columns df') ''Strategy Return'' = Some sr
    \<and> length dr = length [1, 2, 2 :: real] \<and> length sr = length [1, 2, 2 :: real]
    \<and> dr ! 0 = None
    \<and> (\<forall>i. 1 \<le> i \<and> i < length [1, 2, 2 :: real] \<longrightarrow>
          dr ! i = Some ([1, 2, 2] ! i / [1, 2, 2] ! (i - 1) - 1))
    \<and> (\<forall>i < length [1, 2, 2 :: real]. sr ! i = cell_mul (dr ! i) ([Some 0, Some 1, Some (0::real)] ! i))
    \<and> (\<forall>i < length [1, 2, 2 :: real]. [Some 0, Some 1, Some (0::real)] ! i = Some 1 \<longrightarrow> sr ! i = dr ! i)
    \<and> (\<forall>i. 1 \<le> i \<and> i < length [1, 2, 2 :: real] \<and> [Some 0, Some 1, Some (0::real)] ! i = Some 0
          \<longrightarrow> sr ! i = Some 0)
    \<and> ((\<forall>i < length [1, 2, 2 :: real]. [1, 2, 2 :: real] ! i = [1, 2, 2] ! 0) \<longrightarrow>
          (\<forall>i. 1 \<le> i \<and> i < length [1, 2, 2 :: real] \<longrightarrow> dr ! i = Some 0)))"
  by (intro conjI returns_frame_cols(1-4) returns_follow_position[OF returns_frame_cols])

lemma returns_example:
  "calculate_returns returns_frame =
     Inr \<lparr>index = [0, 1, 2],
          columns = [(''Close'', [Some 1, Some 2, Some 2]),
                     (''Position'', [Some 0, Some 1, Some 0]),
                     (''Daily Return'', [None, Some 1, Some 0]),
                     (''Strategy Return'', [None, Some 1, Some 0])]\<rparr>"
  by (simp add: returns_frame_def calculate_returns_def with_col_def setitem_def pct_change_def
      ffill_def shift_def sub_scalar_def)

section \<open>Claims about the performance analyzer\<close>

lemma report_numbers:
  assumes "2 \<le> length (dropna returns)"
  shows "\<exists>m v. get_performance_report returns name = Inr (Numbers m)
      \<and> label m = name
      \<and> cumulative_return m = prod_list (map (\<lambda>r. 1 + r) (dropna returns)) - 1
      \<and> annualized_return m =
           (if 252 < length (dropna returns)
            then map_option (\<lambda>p. p - 1)
                   (float_pow (1 + cumulative_return m) (252 / real (length (dropna returns))))
            else Some (cumulative_return m))
      \<and> std (dropna returns) = Some v
      \<and> annualized_volatility m = Some (v * sqrt 252)
      \<and> sharpe_ratio m =
           (if v * sqrt 252 \<noteq> 0 then map_option (\<lambda>a. a / (v * sqrt 252)) (annualized_return m)
            else Some 0)
      \<and> max_drawdown m = series_min (drawdown_of (dropna returns))"
proof -
  from assms obtain v where v: "std (dropna returns) = Some v"
    by (auto simp: std_def Let_def)
  show ?thesis
  proof (cases "v * sqrt 252 = 0")
    case True
    with assms v show ?thesis
      by (simp add: get_performance_report_def Let_def)
  next
    case False
    with assms v show ?thesis
      by (auto simp: get_performance_report_def Let_def py_div_def split: option.splits)
  qed
qed

text \<open>
  C4 (fewer than two defined returns). The report is then the placeholder text, which
  names the report and says that there is not enough data; it is not the variant that
  carries the five numbers, and the call does not raise.
\<close>

theorem insufficient_data_placeholder:
  assumes "length (dropna returns) < 2"
  shows "get_performance_report returns name =
           Inr (NotEnoughData (''Performance Report - '' @ name @ [CHR 0x0A]
                  @ ''========================================'' @ [CHR 0x0A]
                  @ ''Not enough data for calculation.'' @ [CHR 0x0A]
                  @ ''========================================'' @ [CHR 0x0A]))"
proof -
  have "replicate 40 (CHR ''='') = ''========================================''"
    by (simp add: eval_nat_numeral)
  then show ?thesis using assms
    by (simp add: get_performance_report_def not_enough_text_def newline_def)
qed

theorem insufficient_data_placeholder_witness:
  "length (dropna [None, Some (1/100)]) < 2
   \<and> get_performance_report [None, Some (1/100)] ''Strategy'' =
           Inr (NotEnoughData (''Performance Report - '' @ ''Strategy'' @ [CHR 0x0A]
                  @ ''========================================'' @ [CHR 0x0A]
                  @ ''Not enough data for calculation.'' @ [CHR 0x0A]
                  @ ''========================================'' @ [CHR 0x0A]))"
proof -
  have h: "length (dropna [None, Some (1/100)]) < 2" by simp
  show ?thesis by (intro conjI h insufficient_data_placeholder[OF h])
qed

text \<open>
  C5 (the Sharpe ratio and zero volatility). With at least two defined returns the call
  returns the numbers and never raises, the annualized volatility is defined, the Sharpe
  ratio is the annualized return divided by the annualized volatility where that is
  not zero, and exactly 0 where it is zero.
\<close>

theorem sharpe_zero_volatility_guard:
  assumes "2 \<le> length (dropna returns)"
  shows "\<exists>m v. get_performance_report returns name = Inr (Numbers m)
      \<and> annualized_volatility m = Some v
      \<and> (v \<noteq> 0 \<longrightarrow> sharpe_ratio m = map_option (\<lambda>a. a / v) (annualized_return m))
      \<and> (v = 0 \<longrightarrow> sharpe_ratio m = Some 0)"
proof -
  from report_numbers[OF assms, of name] obtain m v where
    "get_performance_report returns name = Inr (Numbers m)"
    "annualized_volatility m = Some (v * sqrt 252)"
    "sharpe_ratio m =
           (if v * sqrt 252 \<noteq> 0 then map_option (\<lambda>a. a / (v * sqrt 252)) (annualized_return m)
            else Some 0)"
    by blast
  then show ?thesis by (intro exI[of _ m] exI[of _ "v * sqrt 252"]) simp
qed

theorem sharpe_zero_volatility_guard_witness:
  "2 \<le> length (dropna [None, Some 0, Some 0])
   \<and> (\<exists>m v. get_performance_report [None, Some 0, Some 0] ''Strategy'' = Inr (Numbers m)
      \<and> annualized_volatility m = Some v
      \<and> (v \<noteq> 0 \<longrightarrow> sharpe_ratio m = map_option (\<lambda>a. a / v) (annualized_return m))
      \<and> (v = 0 \<longrightarrow> sharpe_ratio m = Some 0))"
proof -
  have h: "2 \<le> length (dropna [None, Some 0, Some 0])" by simp
  show ?thesis by (intro conjI h sharpe_zero_volatility_guard[OF h])
qed

text \<open>
  C3 (annualization). With \<open>N \<ge> 2\<close> defined returns and cumulative return \<open>c\<close>, the
  product of the growth factors less 1: for \<open>N \<le> 252\<close> the annualized return is
  \<open>c\<close> itself; for \<open>N > 252\<close> it is the float power \<open>(1 + c) ** (252 / N)\<close> less 1,
  which is \<open>(1 + c) powr (252 / N) - 1\<close> when \<open>1 + c\<close> is not negative and NaN when it
  is (a negative number has no such power).
\<close>

theorem annualization_branch:
  assumes "2 \<le> length (dropna returns)"
  shows "\<exists>m. get_performance_report returns name = Inr (Numbers m)
      \<and> cumulative_return m = prod_list (map (\<lambda>r. 1 + r) (dropna returns)) - 1
      \<and> (length (dropna returns) \<le> 252 \<longrightarrow> annualized_return m = Some (cumulative_return m))
      \<and> (252 < length (dropna returns) \<longrightarrow>
            annualized_return m =
              map_option (\<lambda>p. p - 1)
                (float_pow (1 + cumulative_return m) (252 / real (length (dropna returns))))
          \<and> (0 \<le> 1 + cumulative_return m \<longrightarrow>
               annualized_return m =
                 Some ((1 + cumulative_return m) powr (252 / real (length (dropna returns))) - 1))
          \<and> (1 + cumulative_return m < 0 \<longrightarrow> annualized_return m = None))"
proof -
  let ?n = "length (dropna returns)"
  from report_numbers[OF assms, of name] obtain m where
    r: "get_performance_report returns name = Inr (Numbers m)"
    and c: "cumulative_return m = prod_list (map (\<lambda>r. 1 + r) (dropna returns)) - 1"
    and a: "annualized_return m =
           (if 252 < ?n
            then map_option (\<lambda>p. p - 1) (float_pow (1 + cumulative_return m) (252 / real ?n))
            else Some (cumulative_return m))"
    by blast
  have short: "?n \<le> 252 \<longrightarrow> annualized_return m = Some (cumulative_return m)"
    using a by simp
  have long: "252 < ?n \<longrightarrow>
            annualized_return m =
              map_option (\<lambda>p. p - 1) (float_pow (1 + cumulative_return m) (252 / real ?n))
          \<and> (0 \<le> 1 + cumulative_return m \<longrightarrow>
               annualized_return m = Some ((1 + cumulative_return m) powr (252 / real ?n) - 1))
          \<and> (1 + cumulative_return m < 0 \<longrightarrow> annualized_return m = None)"
  proof
    assume n: "252 < ?n"
    then have rn: "252 < real ?n" by linarith
    then have pos: "0 < real ?n" by linarith
    have e1: "0 < 252 / real ?n" by (rule divide_pos_pos[OF _ pos]) simp
    have e2: "252 / real ?n < 1" using rn pos by (simp add: divide_less_eq)
    note e = e1 e2
    from e have "\<lfloor>252 / real ?n\<rfloor> = 0" by (simp add: floor_eq_iff)
    with e have ni: "252 / real ?n \<noteq> of_int \<lfloor>252 / real ?n\<rfloor>" by simp
    from n a have a': "annualized_return m =
        map_option (\<lambda>p. p - 1) (float_pow (1 + cumulative_return m) (252 / real ?n))" by simp
    have nonneg: "0 \<le> 1 + cumulative_return m \<longrightarrow>
               annualized_return m = Some ((1 + cumulative_return m) powr (252 / real ?n) - 1)"
      using a' e by (auto simp: float_pow_def)
    have neg: "1 + cumulative_return m < 0 \<longrightarrow> annualized_return m = None"
      using a' ni by (auto simp: float_pow_def)
    from a' nonneg neg show "annualized_return m =
              map_option (\<lambda>p. p - 1) (float_pow (1 + cumulative_return m) (252 / real ?n))
          \<and> (0 \<le> 1 + cumulative_return m \<longrightarrow>
               annualized_return m = Some ((1 + cumulative_return m) powr (252 / real ?n) - 1))
          \<and> (1 + cumulative_return m < 0 \<longrightarrow> annualized_return m = None)" by blast
  qed
  from r c short long show ?thesis by blast
qed


lemma dropna_replicate [simp]: "dropna (replicate n (Some x)) = replicate n x"
  by (induction n) simp_all

lemma growth_replicate: "prod_list (map (\<lambda>r. 1 + r) (replicate n x)) = (1 + x) ^ n"
  by (induction n) simp_all

theorem annualization_branch_witness:
  "2 \<le> length (dropna (replicate 253 (Some (1/100))))
   \<and> 2 \<le> length (dropna (replicate 252 (Some (1/100))))
   \<and> (\<exists>m. get_performance_report (replicate 253 (Some (1/100))) ''Strategy'' = Inr (Numbers m)
         \<and> cumulative_return m = (101/100) ^ 253 - 1
         \<and> annualized_return m = Some (((101/100) ^ 253) powr (252 / 253) - 1))
   \<and> (\<exists>m. get_performance_report (replicate 252 (Some (1/100))) ''Strategy'' = Inr (Numbers m)
         \<and> cumulative_return m = (101/100) ^ 252 - 1
         \<and> annualized_return m = Some ((101/100) ^ 252 - 1))"
proof -
  have h1: "2 \<le> length (dropna (replicate 253 (Some (1/100))))" by simp
  have h2: "2 \<le> length (dropna (replicate 252 (Some (1/100))))" by simp
  have g: "\<And>n. 1 + (prod_list (map (\<lambda>r. 1 + r) (replicate n (1/100::real))) - 1) = (101/100) ^ n"
    by (simp add: growth_replicate)
  let ?r1 = "replicate 253 (Some (1/100::real))"
  let ?r2 = "replicate 252 (Some (1/100::real))"
  from annualization_branch[OF h1, of "''Strategy''"] obtain m1 where
    m1: "get_performance_report ?r1 ''Strategy'' = Inr (Numbers m1)"
    and c1: "cumulative_return m1 = prod_list (map (\<lambda>r. 1 + r) (dropna ?r1)) - 1"
    and l1: "252 < length (dropna ?r1) \<longrightarrow>
            annualized_return m1 =
              map_option (\<lambda>p. p - 1)
                (float_pow (1 + cumulative_return m1) (252 / real (length (dropna ?r1))))
          \<and> (0 \<le> 1 + cumulative_return m1 \<longrightarrow>
               annualized_return m1 =
                 Some ((1 + cumulative_return m1) powr (252 / real (length (dropna ?r1))) - 1))
          \<and> (1 + cumulative_return m1 < 0 \<longrightarrow> annualized_return m1 = None)"
    by blast
  have n1: "252 < length (dropna ?r1)" by simp
  from l1 n1 have a1: "0 \<le> 1 + cumulative_return m1 \<longrightarrow>
               annualized_return m1 =
                 Some ((1 + cumulative_return m1) powr (252 / real (length (dropna ?r1))) - 1)"
    by blast
  have c1': "cumulative_return m1 = (101/100) ^ 253 - 1"
    using c1 by (simp add: growth_replicate)
  have p1: "1 + cumulative_return m1 = (101/100) ^ 253" unfolding c1' by simp
  have "0 \<le> 1 + cumulative_return m1" unfolding p1 by simp
  with a1 have a1': "annualized_return m1 = Some (((101/100) ^ 253) powr (252 / 253) - 1)"
    unfolding p1 by simp
  from annualization_branch[OF h2, of "''Strategy''"] obtain m2 where
    m2: "get_performance_report ?r2 ''Strategy'' = Inr (Numbers m2)"
    and c2: "cumulative_return m2 = prod_list (map (\<lambda>r. 1 + r) (dropna ?r2)) - 1"
    and a2: "length (dropna ?r2) \<le> 252 \<longrightarrow> annualized_return m2 = Some (cumulative_return m2)"
    by blast
  have c2': "cumulative_return m2 = (101/100) ^ 252 - 1"
    using c2 by (simp add: growth_replicate)
  from a2 have a2': "annualized_return m2 = Some ((101/100) ^ 252 - 1)"
    unfolding c2' by simp
  from h1 h2 m1 c1' a1' m2 c2' a2' show ?thesis by blast
qed

subsection \<open>The drawdown\<close>

lemma length_cumprod_from [simp]: "length (cumprod_from acc xs) = length xs"
  by (induction xs arbitrary: acc) simp_all

lemma length_cummax_from [simp]: "length (cummax_from m xs) = length xs"
  by (induction xs arbitrary: m) simp_all

lemma length_cummax [simp]: "length (cummax xs) = length xs"
  by (cases xs) (simp_all add: cummax_def)

lemma cumprod_from_nth:
  "i < length xs \<Longrightarrow> cumprod_from acc xs ! i = acc * prod_list (take (Suc i) xs)"
proof (induction xs arbitrary: acc i)
  case Nil
  then show ?case by simp
next
  case (Cons x xs)
  show ?case
  proof (cases i)
    case 0
    then show ?thesis by simp
  next
    case (Suc k)
    with Cons.prems have "k < length xs" by simp
    from Cons.IH[OF this, of "acc * x"] Suc show ?thesis by (simp add: mult.assoc)
  qed
qed

lemma Max_insert_max:
  fixes m :: real
  assumes "finite S"
  shows "Max (insert (max m x) S) = Max (insert m (insert x S))"
  using assms by (cases "S = {}") (simp_all add: max.assoc)

lemma cummax_from_nth:
  "i < length xs \<Longrightarrow> cummax_from m xs ! i = Max (insert m (set (take (Suc i) xs)))"
proof (induction xs arbitrary: m i)
  case Nil
  then show ?case by simp
next
  case (Cons x xs)
  show ?case
  proof (cases i)
    case 0
    then show ?thesis by (simp add: max_def)
  next
    case (Suc k)
    with Cons.prems have k: "k < length xs" by simp
    have "Max (insert (max m x) (set (take (Suc k) xs))) = Max (insert m (insert x (set (take (Suc k) xs))))"
      by (rule Max_insert_max) simp
    with Cons.IH[OF k, of "max m x"] Suc show ?thesis by (simp del: Max_insert)
  qed
qed

lemma cummax_nth: "i < length xs \<Longrightarrow> cummax xs ! i = Max (set (take (Suc i) xs))"
proof (cases xs)
  case Nil
  then show "i < length xs \<Longrightarrow> ?thesis" by simp
next
  case (Cons x ys)
  assume i: "i < length xs"
  show ?thesis
  proof (cases i)
    case 0
    with Cons show ?thesis by (simp add: cummax_def)
  next
    case (Suc k)
    with i Cons have "k < length ys" by simp
    from cummax_from_nth[OF this, of x] Suc Cons show ?thesis by (simp add: cummax_def)
  qed
qed

lemma wealth_nth:
  "i < length rs \<Longrightarrow> cumprod (map (\<lambda>r. 1 + r) rs) ! i = spec_wealth rs i"
  by (simp add: cumprod_def cumprod_from_nth spec_wealth_def take_map)

lemma wealth_prefix:
  assumes "i < length rs"
  shows "take (Suc i) (cumprod (map (\<lambda>r. 1 + r) rs)) = map (spec_wealth rs) [0..<Suc i]"
proof (rule nth_equalityI)
  show "length (take (Suc i) (cumprod (map (\<lambda>r. 1 + r) rs))) = length (map (spec_wealth rs) [0..<Suc i])"
    using assms by (simp add: cumprod_def)
next
  fix k assume "k < length (take (Suc i) (cumprod (map (\<lambda>r. 1 + r) rs)))"
  then have k: "k < Suc i" "k < length rs" by (simp_all add: cumprod_def)
  then have "map (spec_wealth rs) [0..<Suc i] ! k = spec_wealth rs k"
    by (metis add_0 nth_map_upt minus_nat.diff_0)
  with k show "take (Suc i) (cumprod (map (\<lambda>r. 1 + r) rs)) ! k = map (spec_wealth rs) [0..<Suc i] ! k"
    by (simp add: wealth_nth)
qed

lemma peak_nth:
  assumes "i < length rs"
  shows "cummax (cumprod (map (\<lambda>r. 1 + r) rs)) ! i = spec_peak rs i"
proof -
  let ?w = "cumprod (map (\<lambda>r. 1 + r) rs)"
  have "i < length ?w" using assms by (simp add: cumprod_def)
  then have "cummax ?w ! i = Max (set (take (Suc i) ?w))" by (rule cummax_nth)
  also have "\<dots> = Max (set (map (spec_wealth rs) [0..<Suc i]))"
    by (simp only: wealth_prefix[OF assms])
  finally show ?thesis by (simp only: spec_peak_def)
qed

lemma drawdown_of_nth:
  assumes "i < length rs"
  shows "drawdown_of rs ! i =
           cell_div (Some (spec_wealth rs i - spec_peak rs i)) (Some (spec_peak rs i))"
  using assms wealth_nth[OF assms] peak_nth[OF assms]
  by (simp add: drawdown_of_def Let_def cumprod_def)

lemma length_drawdown_of [simp]: "length (drawdown_of rs) = length rs"
  by (simp add: drawdown_of_def Let_def cumprod_def)

lemma wealth_le_peak: "spec_wealth rs i \<le> spec_peak rs i"
  by (simp add: spec_peak_def)

lemma wealth_pos:
  assumes "\<forall>r \<in> set rs. -1 < r"
  shows "0 < spec_wealth rs i"
proof -
  have "\<And>xs :: real list. (\<forall>x \<in> set xs. 0 < x) \<Longrightarrow> 0 < prod_list xs"
  proof -
    fix xs :: "real list"
    show "(\<forall>x \<in> set xs. 0 < x) \<Longrightarrow> 0 < prod_list xs" by (induction xs) simp_all
  qed
  moreover have "\<forall>x \<in> set (map (\<lambda>r. 1 + r) (take (Suc i) rs)). 0 < x"
  proof
    fix x assume "x \<in> set (map (\<lambda>r. 1 + r) (take (Suc i) rs))"
    then obtain r where r: "r \<in> set (take (Suc i) rs)" "x = 1 + r" by auto
    then have "r \<in> set rs" by (auto dest: in_set_takeD)
    with assms have "-1 < r" by blast
    with r show "0 < x" by linarith
  qed
  ultimately show ?thesis unfolding spec_wealth_def by blast
qed

lemma peak_pos: "\<forall>r \<in> set rs. -1 < r \<Longrightarrow> 0 < spec_peak rs i"
  using wealth_pos[of rs i] wealth_le_peak[of rs i] by linarith

lemma drawdown_nonpos: "\<forall>r \<in> set rs. -1 < r \<Longrightarrow> spec_drawdown rs i \<le> 0"
  using peak_pos[of rs i] wealth_le_peak[of rs i]
  by (simp add: spec_drawdown_def divide_le_0_iff)

lemma known_drawdown:
  "series_min (drawdown_of [1/10, -2/10, 1/10]) = Some (-2/10)"
  by (simp add: drawdown_of_def cumprod_def cummax_def series_min_def)

lemma drawdown_of_cells:
  "drawdown_of rs =
     map (\<lambda>i. if spec_peak rs i = 0 then None else Some (spec_drawdown rs i)) [0..<length rs]"
proof (rule nth_equalityI)
  show "length (drawdown_of rs) =
        length (map (\<lambda>i. if spec_peak rs i = 0 then None else Some (spec_drawdown rs i)) [0..<length rs])"
    by simp
next
  fix i assume "i < length (drawdown_of rs)"
  then have i: "i < length rs" by simp
  then show "drawdown_of rs ! i =
      map (\<lambda>i. if spec_peak rs i = 0 then None else Some (spec_drawdown rs i)) [0..<length rs] ! i"
    using drawdown_of_nth[OF i] by (simp add: spec_drawdown_def)
qed

lemma dropna_defined_cells:
  "dropna (map (\<lambda>i. if c i then None else Some (f i)) l) = map f (filter (\<lambda>i. \<not> c i) l)"
  by (induction l) simp_all

lemma series_min_cases:
  "series_min xs = (if dropna xs = [] then None else Some (Min (set (dropna xs))))"
proof (cases "dropna xs")
  case Nil
  then show ?thesis by (simp add: series_min_def)
next
  case (Cons y ys)
  have "Min (set (y # ys)) = fold min ys y" by (rule Min.set_eq_fold)
  with Cons show ?thesis by (simp add: series_min_def)
qed

lemma series_min_drawdown_cells:
  "series_min (drawdown_of rs) =
     (if \<forall>i < length rs. spec_peak rs i = 0 then None
      else Some (Min (spec_drawdown rs ` {i. i < length rs \<and> spec_peak rs i \<noteq> 0})))"
proof -
  have d: "dropna (drawdown_of rs) =
      map (spec_drawdown rs) (filter (\<lambda>i. spec_peak rs i \<noteq> 0) [0..<length rs])"
    unfolding drawdown_of_cells by (rule dropna_defined_cells)
  have s: "set (dropna (drawdown_of rs)) =
      spec_drawdown rs ` {i. i < length rs \<and> spec_peak rs i \<noteq> 0}"
    unfolding d by auto
  have e: "dropna (drawdown_of rs) = [] \<longleftrightarrow> (\<forall>i < length rs. spec_peak rs i = 0)"
    unfolding d by (auto simp: filter_empty_conv)
  show ?thesis unfolding series_min_cases s e by simp
qed

lemma wealth_nonzero:
  assumes "\<forall>r \<in> set rs. r \<noteq> -1"
  shows "spec_wealth rs i \<noteq> 0"
proof -
  have "0 \<notin> set (map (\<lambda>r. 1 + r) (take (Suc i) rs))"
  proof
    assume "0 \<in> set (map (\<lambda>r. 1 + r) (take (Suc i) rs))"
    then obtain r where r: "r \<in> set (take (Suc i) rs)" "1 + r = 0" by auto
    then have "r \<in> set rs" by (auto dest: in_set_takeD)
    with assms have "r \<noteq> -1" by blast
    with r show False by simp
  qed
  then show ?thesis unfolding spec_wealth_def by (simp add: prod_list_zero_iff)
qed

lemma peak_is_a_wealth: "\<exists>j \<le> i. spec_peak rs i = spec_wealth rs j"
proof -
  have "spec_peak rs i \<in> set (map (spec_wealth rs) [0..<Suc i])"
    unfolding spec_peak_def by (rule Max_in) simp_all
  then have "\<exists>j \<in> set [0..<Suc i]. spec_peak rs i = spec_wealth rs j"
    by (simp only: set_map image_iff)
  then obtain j where "j \<in> set [0..<Suc i]" "spec_peak rs i = spec_wealth rs j" by blast
  then have "j \<le> i \<and> spec_peak rs i = spec_wealth rs j" by auto
  then show ?thesis by blast
qed

lemma peak_nonzero: "\<forall>r \<in> set rs. r \<noteq> -1 \<Longrightarrow> spec_peak rs i \<noteq> 0"
  using peak_is_a_wealth[of i rs] wealth_nonzero[of rs] by auto

lemma drawdown_nonpos_at: "0 < spec_peak rs i \<Longrightarrow> spec_drawdown rs i \<le> 0"
  using wealth_le_peak[of rs i] by (simp add: spec_drawdown_def divide_le_0_iff)

lemma peak_on_rise:
  assumes "\<forall>i j. i \<le> j \<and> j < length rs \<longrightarrow> spec_wealth rs i \<le> spec_wealth rs j"
    and "i < length rs"
  shows "spec_peak rs i = spec_wealth rs i"
proof -
  have "spec_peak rs i \<le> spec_wealth rs i"
    unfolding spec_peak_def using assms by auto
  with wealth_le_peak[of rs i] show ?thesis by simp
qed

lemma min_drawdown_on_rise:
  assumes rise: "\<forall>i j. i \<le> j \<and> j < length rs \<longrightarrow> spec_wealth rs i \<le> spec_wealth rs j"
    and nz: "\<exists>i < length rs. spec_wealth rs i \<noteq> 0"
  shows "\<not> (\<forall>i < length rs. spec_peak rs i = 0)"
    and "Min (spec_drawdown rs ` {i. i < length rs \<and> spec_peak rs i \<noteq> 0}) = 0"
proof -
  from nz obtain k where k: "k < length rs" "spec_wealth rs k \<noteq> 0" by blast
  then have pk: "spec_peak rs k \<noteq> 0" using peak_on_rise[OF rise] by simp
  with k show "\<not> (\<forall>i < length rs. spec_peak rs i = 0)" by blast
  have z: "spec_drawdown rs i = 0" if "i < length rs" for i
    using peak_on_rise[OF rise that] by (simp add: spec_drawdown_def)
  have "spec_drawdown rs ` {i. i < length rs \<and> spec_peak rs i \<noteq> 0} = {0}"
    using z k pk by (auto simp: image_def)
  then show "Min (spec_drawdown rs ` {i. i < length rs \<and> spec_peak rs i \<noteq> 0}) = 0" by simp
qed


text \<open>
  C6 (maximum drawdown), as amended. With \<open>N \<ge> 2\<close> defined returns, wealth
  \<open>W i\<close> and peak \<open>P i\<close>: the drawdown the code computes at \<open>i\<close> is
  \<open>(W i - P i) / P i\<close> where \<open>P i\<close> is not 0 and is undefined where it is 0; the
  maximum drawdown is the least drawdown over the indices where \<open>P i\<close> is not 0, and
  is undefined when there is no such index; it is the least over all indices whenever
  no return equals -1. A drawdown is at most 0 at every index where \<open>P i\<close> is
  positive, hence at every index when all returns are above -1. A wealth curve that
  never falls and is not 0 throughout gives 0, and the returns 0.10, -0.20, 0.10 give
  -0.20 to the tolerance \<open>1e-9\<close>.
\<close>

theorem max_drawdown_is_least_drawdown:
  assumes "2 \<le> length (dropna returns)"
  shows "\<exists>m. get_performance_report returns name = Inr (Numbers m)
      \<and> (\<forall>i < length (dropna returns).
            drawdown_of (dropna returns) ! i =
              (if spec_peak (dropna returns) i = 0 then None
               else Some (spec_drawdown (dropna returns) i)))
      \<and> max_drawdown m =
            (if \<forall>i < length (dropna returns). spec_peak (dropna returns) i = 0 then None
             else Some (Min (spec_drawdown (dropna returns) `
                              {i. i < length (dropna returns) \<and> spec_peak (dropna returns) i \<noteq> 0})))
      \<and> ((\<forall>r \<in> set (dropna returns). r \<noteq> -1) \<longrightarrow>
            max_drawdown m
              = Some (Min (spec_drawdown (dropna returns) ` {..<length (dropna returns)})))
      \<and> (\<forall>i < length (dropna returns).
            0 < spec_peak (dropna returns) i \<longrightarrow> spec_drawdown (dropna returns) i \<le> 0)
      \<and> ((\<forall>r \<in> set (dropna returns). -1 < r) \<longrightarrow>
            (\<forall>i < length (dropna returns). spec_drawdown (dropna returns) i \<le> 0))
      \<and> ((\<forall>i j. i \<le> j \<and> j < length (dropna returns) \<longrightarrow>
               spec_wealth (dropna returns) i \<le> spec_wealth (dropna returns) j)
           \<and> (\<exists>i < length (dropna returns). spec_wealth (dropna returns) i \<noteq> 0)
           \<longrightarrow> max_drawdown m = Some 0)
      \<and> (\<exists>k d. get_performance_report [Some (1/10), Some (-2/10), Some (1/10)] name
                 = Inr (Numbers k)
             \<and> max_drawdown k = Some d \<and> \<bar>d - (-2/10)\<bar> \<le> 1 / 10 ^ 9)"
proof -
  let ?rs = "dropna returns"
  let ?n = "length ?rs"
  from report_numbers[OF assms, of name] obtain m where
    r: "get_performance_report returns name = Inr (Numbers m)"
    and d: "max_drawdown m = series_min (drawdown_of ?rs)"
    by blast
  have cells: "\<forall>i < ?n. drawdown_of ?rs ! i =
              (if spec_peak ?rs i = 0 then None else Some (spec_drawdown ?rs i))"
    by (simp add: drawdown_of_cells[of ?rs])
  have md: "max_drawdown m =
            (if \<forall>i < ?n. spec_peak ?rs i = 0 then None
             else Some (Min (spec_drawdown ?rs ` {i. i < ?n \<and> spec_peak ?rs i \<noteq> 0})))"
    unfolding d by (rule series_min_drawdown_cells)
  have all: "(\<forall>r \<in> set ?rs. r \<noteq> -1) \<longrightarrow>
            max_drawdown m = Some (Min (spec_drawdown ?rs ` {..<?n}))"
  proof
    assume a: "\<forall>r \<in> set ?rs. r \<noteq> -1"
    then have p: "\<And>i. spec_peak ?rs i \<noteq> 0" by (rule peak_nonzero)
    have "{i. i < ?n \<and> spec_peak ?rs i \<noteq> 0} = {..<?n}" using p by auto
    moreover have "0 < ?n" using assms by linarith
    then have "\<not> (\<forall>i < ?n. spec_peak ?rs i = 0)" using p by blast
    ultimately show "max_drawdown m = Some (Min (spec_drawdown ?rs ` {..<?n}))"
      using md by simp
  qed
  have sign: "\<forall>i < ?n. 0 < spec_peak ?rs i \<longrightarrow> spec_drawdown ?rs i \<le> 0"
    by (simp add: drawdown_nonpos_at)
  have pos: "(\<forall>r \<in> set ?rs. -1 < r) \<longrightarrow> (\<forall>i < ?n. spec_drawdown ?rs i \<le> 0)"
    using drawdown_nonpos[of ?rs] by blast
  have rise: "(\<forall>i j. i \<le> j \<and> j < ?n \<longrightarrow> spec_wealth ?rs i \<le> spec_wealth ?rs j)
           \<and> (\<exists>i < ?n. spec_wealth ?rs i \<noteq> 0)
           \<longrightarrow> max_drawdown m = Some 0"
  proof
    assume a: "(\<forall>i j. i \<le> j \<and> j < ?n \<longrightarrow> spec_wealth ?rs i \<le> spec_wealth ?rs j)
           \<and> (\<exists>i < ?n. spec_wealth ?rs i \<noteq> 0)"
    from min_drawdown_on_rise[OF a[THEN conjunct1] a[THEN conjunct2]] md
    show "max_drawdown m = Some 0" by simp
  qed
  have "2 \<le> length (dropna [Some (1/10), Some (-2/10), Some (1/10)])" by simp
  from report_numbers[OF this, of name] obtain k where
    k: "get_performance_report [Some (1/10), Some (-2/10), Some (1/10)] name = Inr (Numbers k)"
    and dk: "max_drawdown k = series_min (drawdown_of (dropna [Some (1/10), Some (-2/10), Some (1/10)]))"
    by blast
  have "max_drawdown k = Some (-2/10)" using dk known_drawdown by simp
  moreover have "\<bar>(-2/10) - (-2/10 :: real)\<bar> \<le> 1 / 10 ^ 9" by simp
  ultimately have known: "\<exists>k d. get_performance_report [Some (1/10), Some (-2/10), Some (1/10)] name
                 = Inr (Numbers k)
             \<and> max_drawdown k = Some d \<and> \<bar>d - (-2/10)\<bar> \<le> 1 / 10 ^ 9"
    using k by blast
  show ?thesis
    by (rule exI[of _ m]) (intro conjI r cells md all sign pos rise known)
qed

theorem max_drawdown_is_least_drawdown_witness:
  "2 \<le> length (dropna [None, Some (1/100), Some (1/100), Some (1/100)])
   \<and> (\<exists>m. get_performance_report [None, Some (1/100), Some (1/100), Some (1/100)] ''Strategy''
             = Inr (Numbers m)
          \<and> max_drawdown m = Some 0
          \<and> max_drawdown m
              = Some (Min (spec_drawdown (dropna [None, Some (1/100), Some (1/100), Some (1/100)]) `
                   {..<length (dropna [None, Some (1/100), Some (1/100), Some (1/100)])})))"
proof -
  let ?r = "[None, Some (1/100), Some (1/100), Some (1/100::real)]"
  have h1: "2 \<le> length (dropna ?r)" by simp
  have h2: "\<forall>r \<in> set (dropna ?r). r \<noteq> -1" by simp
  have rise: "\<forall>i j. i \<le> j \<and> j < length (dropna ?r) \<longrightarrow>
               spec_wealth (dropna ?r) i \<le> spec_wealth (dropna ?r) j"
  proof (intro allI impI)
    fix i j assume "i \<le> j \<and> j < length (dropna ?r)"
    then have "j \<in> {0, 1, 2}" "i \<le> j" by auto
    then have "i \<in> {0, 1, 2}" by auto
    with \<open>j \<in> {0, 1, 2}\<close> \<open>i \<le> j\<close>
    show "spec_wealth (dropna ?r) i \<le> spec_wealth (dropna ?r) j"
      by (auto simp: spec_wealth_def)
  qed
  have "0 < length (dropna ?r) \<and> spec_wealth (dropna ?r) 0 \<noteq> 0"
    by (simp add: spec_wealth_def)
  then have nz: "\<exists>i < length (dropna ?r). spec_wealth (dropna ?r) i \<noteq> 0" by blast
  from max_drawdown_is_least_drawdown[OF h1, of "''Strategy''"] obtain m where
    m: "get_performance_report ?r ''Strategy'' = Inr (Numbers m)"
    and a: "(\<forall>r \<in> set (dropna ?r). r \<noteq> -1) \<longrightarrow>
            max_drawdown m = Some (Min (spec_drawdown (dropna ?r) ` {..<length (dropna ?r)}))"
    and b: "(\<forall>i j. i \<le> j \<and> j < length (dropna ?r) \<longrightarrow>
               spec_wealth (dropna ?r) i \<le> spec_wealth (dropna ?r) j)
           \<and> (\<exists>i < length (dropna ?r). spec_wealth (dropna ?r) i \<noteq> 0)
           \<longrightarrow> max_drawdown m = Some 0"
    by blast
  from a h2 have a': "max_drawdown m = Some (Min (spec_drawdown (dropna ?r) ` {..<length (dropna ?r)}))"
    by blast
  from b rise nz have b': "max_drawdown m = Some 0" by blast
  from m a' b' have "\<exists>m. get_performance_report ?r ''Strategy'' = Inr (Numbers m)
          \<and> max_drawdown m = Some 0
          \<and> max_drawdown m = Some (Min (spec_drawdown (dropna ?r) ` {..<length (dropna ?r)}))"
    by blast
  with h1 show ?thesis by (rule conjI)
qed

text \<open>
  C6 as stated fails in two places. On the returns -2, 1 the wealth is -1, -2 and the
  peak -1, -1, so the drawdown at index 1 is \<open>(-2 - (-1)) / (-1) = 1\<close>, which is
  positive. On the returns -1, 0 the wealth is 0, 0, which never falls, and the peak is
  0 at both indices, so no drawdown is defined and the maximum drawdown is undefined,
  not 0.
\<close>

theorem drawdown_sign_and_peak_counterexample:
  "2 \<le> length (dropna [Some (-2), Some 1])
   \<and> drawdown_of (dropna [Some (-2), Some 1]) = [Some 0, Some 1]
   \<and> spec_drawdown (dropna [Some (-2), Some 1]) 1 = 1
   \<and> 2 \<le> length (dropna [Some (-1), Some 0])
   \<and> spec_wealth (dropna [Some (-1), Some 0]) 0 = 0
   \<and> spec_wealth (dropna [Some (-1), Some 0]) 1 = 0
   \<and> drawdown_of (dropna [Some (-1), Some 0]) = [None, None]
   \<and> series_min (drawdown_of (dropna [Some (-1), Some 0])) = None"
  by (simp add: drawdown_of_def cumprod_def cummax_def spec_drawdown_def spec_wealth_def
      spec_peak_def series_min_def upt_rec)

section \<open>Claims about the caller's table\<close>

lemma calculate_signals_frame:
  "(case calculate_signals sw lw df of
      Inl (e, df') \<Rightarrow> e = KeyError ''Close'' \<and> df' = df
    | Inr df' \<Rightarrow> index df' = index df
        \<and> map_of (columns df') ''Close'' = map_of (columns df) ''Close''
        \<and> (\<forall>n. n \<notin> {sma_name sw, sma_name lw, ''Signal'', ''Position''} \<longrightarrow>
              map_of (columns df') n = map_of (columns df) n))"
proof (cases "map_of (columns df) ''Close''")
  case None
  then show ?thesis by (simp add: calculate_signals_def with_col_def)
next
  case (Some close)
  from calculate_signals_run[OF Some, of sw lw] obtain df' where
    "calculate_signals sw lw df = Inr df'" "index df' = index df"
    "map_of (columns df') ''Close'' = Some close"
    "\<forall>n. n \<notin> {sma_name sw, sma_name lw, ''Signal'', ''Position''} \<longrightarrow>
            map_of (columns df') n = map_of (columns df) n"
    by blast
  with Some show ?thesis by simp
qed

lemma calculate_returns_frame:
  "(case calculate_returns df of
      Inl (e, df') \<Rightarrow> (e = KeyError ''Close'' \<and> df' = df)
          \<or> (e = KeyError ''Position'' \<and> index df' = index df
              \<and> map_of (columns df') ''Close'' = map_of (columns df) ''Close''
              \<and> (\<forall>n. n \<noteq> ''Daily Return'' \<longrightarrow> map_of (columns df') n = map_of (columns df) n))
    | Inr df' \<Rightarrow> index df' = index df
        \<and> map_of (columns df') ''Close'' = map_of (columns df) ''Close''
        \<and> (\<forall>n. n \<notin> {''Daily Return'', ''Strategy Return''} \<longrightarrow>
              map_of (columns df') n = map_of (columns df) n))"
proof (cases "map_of (columns df) ''Close''")
  case None
  then show ?thesis by (simp add: calculate_returns_def with_col_def)
next
  case c: (Some close)
  show ?thesis
  proof (cases "map_of (columns df) ''Position''")
    case None
    with c show ?thesis
      by (simp add: calculate_returns_def with_col_def setitem_def update_conv' Let_def)
  next
    case (Some pos)
    from calculate_returns_run[OF c Some] obtain df' where
      "calculate_returns df = Inr df'" "index df' = index df"
      "\<forall>n. n \<notin> {''Daily Return'', ''Strategy Return''} \<longrightarrow>
            map_of (columns df') n = map_of (columns df) n"
      by blast
    then show ?thesis by simp
  qed
qed


lemma in_place_Inr: "f (h r) = Inr df' \<Longrightarrow> in_place f r h = (h(r := df'), Inr r)"
  by (simp add: in_place_def)

lemma in_place_Inl: "f (h r) = Inl (e, df') \<Longrightarrow> in_place f r h = (h(r := df'), Inl e)"
  by (simp add: in_place_def)

lemma signals_call_frame:
  "(\<forall>q. q \<noteq> r \<longrightarrow> fst (calculate_signals_call sw lw r h) q = h q)
   \<and> index (fst (calculate_signals_call sw lw r h) r) = index (h r)
   \<and> map_of (columns (fst (calculate_signals_call sw lw r h) r)) ''Close''
        = map_of (columns (h r)) ''Close''
   \<and> (\<forall>n. n \<notin> {sma_name sw, sma_name lw, ''Signal'', ''Position''} \<longrightarrow>
         map_of (columns (fst (calculate_signals_call sw lw r h) r)) n = map_of (columns (h r)) n)
   \<and> (snd (calculate_signals_call sw lw r h) = Inr r
        \<or> snd (calculate_signals_call sw lw r h) = Inl (KeyError ''Close'')
           \<and> fst (calculate_signals_call sw lw r h) = h)"
proof (cases "calculate_signals sw lw (h r)")
  case (Inl p)
  obtain e df' where p: "p = (e, df')" by (cases p)
  from calculate_signals_frame[where sw = sw and lw = lw and df = "h r"] Inl p
  have e: "e = KeyError ''Close''" and d: "df' = h r" by simp_all
  have "calculate_signals_call sw lw r h = (h, Inl (KeyError ''Close''))"
    unfolding calculate_signals_call_def using in_place_Inl[of "calculate_signals sw lw" h r e df'] Inl p e d
    by simp
  then show ?thesis by simp
next
  case (Inr df')
  from calculate_signals_frame[where sw = sw and lw = lw and df = "h r"] Inr
  have f: "index df' = index (h r)"
    "map_of (columns df') ''Close'' = map_of (columns (h r)) ''Close''"
    "\<forall>n. n \<notin> {sma_name sw, sma_name lw, ''Signal'', ''Position''} \<longrightarrow>
              map_of (columns df') n = map_of (columns (h r)) n"
    by simp_all
  have "calculate_signals_call sw lw r h = (h(r := df'), Inr r)"
    unfolding calculate_signals_call_def using Inr by (rule in_place_Inr)
  with f show ?thesis by simp
qed

lemma returns_call_frame:
  "(\<forall>q. q \<noteq> r \<longrightarrow> fst (calculate_returns_call r h) q = h q)
   \<and> index (fst (calculate_returns_call r h) r) = index (h r)
   \<and> map_of (columns (fst (calculate_returns_call r h) r)) ''Close''
        = map_of (columns (h r)) ''Close''
   \<and> (\<forall>n. n \<notin> {''Daily Return'', ''Strategy Return''} \<longrightarrow>
         map_of (columns (fst (calculate_returns_call r h) r)) n = map_of (columns (h r)) n)
   \<and> (snd (calculate_returns_call r h) = Inr r
        \<or> snd (calculate_returns_call r h) = Inl (KeyError ''Position'')
        \<or> snd (calculate_returns_call r h) = Inl (KeyError ''Close'')
           \<and> fst (calculate_returns_call r h) = h)"
proof (cases "calculate_returns (h r)")
  case (Inl p)
  obtain e df' where p: "p = (e, df')" by (cases p)
  from calculate_returns_frame[where df = "h r"] Inl p
  have alt: "(e = KeyError ''Close'' \<and> df' = h r)
          \<or> (e = KeyError ''Position'' \<and> index df' = index (h r)
              \<and> map_of (columns df') ''Close'' = map_of (columns (h r)) ''Close''
              \<and> (\<forall>n. n \<noteq> ''Daily Return'' \<longrightarrow> map_of (columns df') n = map_of (columns (h r)) n))"
    by simp
  have c: "calculate_returns_call r h = (h(r := df'), Inl e)"
    unfolding calculate_returns_call_def using Inl p by (simp add: in_place_Inl)
  from alt show ?thesis
  proof
    assume "e = KeyError ''Close'' \<and> df' = h r"
    with c have "calculate_returns_call r h = (h, Inl (KeyError ''Close''))" by simp
    then show ?thesis by simp
  next
    assume "e = KeyError ''Position'' \<and> index df' = index (h r)
              \<and> map_of (columns df') ''Close'' = map_of (columns (h r)) ''Close''
              \<and> (\<forall>n. n \<noteq> ''Daily Return'' \<longrightarrow> map_of (columns df') n = map_of (columns (h r)) n)"
    with c show ?thesis by simp
  qed
next
  case (Inr df')
  from calculate_returns_frame[where df = "h r"] Inr
  have f: "index df' = index (h r)"
    "map_of (columns df') ''Close'' = map_of (columns (h r)) ''Close''"
    "\<forall>n. n \<notin> {''Daily Return'', ''Strategy Return''} \<longrightarrow>
              map_of (columns df') n = map_of (columns (h r)) n"
    by simp_all
  have "calculate_returns_call r h = (h(r := df'), Inr r)"
    unfolding calculate_returns_call_def using Inr by (rule in_place_Inr)
  with f show ?thesis by simp
qed


lemma signals_call_outputs:
  assumes "map_of (columns (h r)) ''Close'' = Some close"
  shows "snd (calculate_signals_call sw lw r h) = Inr r
    \<and> map_of (columns (fst (calculate_signals_call sw lw r h) r)) (sma_name sw)
         = Some (rolling_mean sw close)
    \<and> map_of (columns (fst (calculate_signals_call sw lw r h) r)) (sma_name lw)
         = Some (rolling_mean lw close)
    \<and> map_of (columns (fst (calculate_signals_call sw lw r h) r)) ''Signal''
         = Some (signal_col sw lw (length (index (h r))) close)
    \<and> map_of (columns (fst (calculate_signals_call sw lw r h) r)) ''Position''
         = Some (position_col sw lw (length (index (h r))) close)"
proof -
  from calculate_signals_run[OF assms, of sw lw] obtain df' where
    run: "calculate_signals sw lw (h r) = Inr df'"
    and c: "map_of (columns df') (sma_name sw) = Some (rolling_mean sw close)"
      "map_of (columns df') (sma_name lw) = Some (rolling_mean lw close)"
      "map_of (columns df') ''Signal'' = Some (signal_col sw lw (length (index (h r))) close)"
      "map_of (columns df') ''Position'' = Some (position_col sw lw (length (index (h r))) close)"
    by blast
  have "calculate_signals_call sw lw r h = (h(r := df'), Inr r)"
    unfolding calculate_signals_call_def using run by (rule in_place_Inr)
  with c show ?thesis by simp
qed

lemma signals_call_no_close:
  assumes "map_of (columns (h r)) ''Close'' = None"
  shows "snd (calculate_signals_call sw lw r h) = Inl (KeyError ''Close'')
    \<and> fst (calculate_signals_call sw lw r h) = h"
proof -
  have "calculate_signals sw lw (h r) = Inl (KeyError ''Close'', h r)"
    using assms by (simp add: calculate_signals_def with_col_def)
  then have "calculate_signals_call sw lw r h = (h(r := h r), Inl (KeyError ''Close''))"
    unfolding calculate_signals_call_def by (rule in_place_Inl)
  then show ?thesis by simp
qed

lemma returns_call_outputs:
  assumes "map_of (columns (h r)) ''Close'' = Some close"
    and "map_of (columns (h r)) ''Position'' = Some pos"
  shows "snd (calculate_returns_call r h) = Inr r
    \<and> map_of (columns (fst (calculate_returns_call r h) r)) ''Daily Return''
         = Some (pct_change close)
    \<and> map_of (columns (fst (calculate_returns_call r h) r)) ''Strategy Return''
         = Some (map2 cell_mul (pct_change close) pos)"
proof -
  from calculate_returns_run[OF assms] obtain df' where
    run: "calculate_returns (h r) = Inr df'"
    and c: "map_of (columns df') ''Daily Return'' = Some (pct_change close)"
      "map_of (columns df') ''Strategy Return'' = Some (map2 cell_mul (pct_change close) pos)"
    by blast
  have "calculate_returns_call r h = (h(r := df'), Inr r)"
    unfolding calculate_returns_call_def using run by (rule in_place_Inr)
  with c show ?thesis by simp
qed

lemma returns_call_no_close:
  assumes "map_of (columns (h r)) ''Close'' = None"
  shows "snd (calculate_returns_call r h) = Inl (KeyError ''Close'')
    \<and> fst (calculate_returns_call r h) = h"
proof -
  have "calculate_returns (h r) = Inl (KeyError ''Close'', h r)"
    using assms by (simp add: calculate_returns_def with_col_def)
  then have "calculate_returns_call r h = (h(r := h r), Inl (KeyError ''Close''))"
    unfolding calculate_returns_call_def by (rule in_place_Inl)
  then show ?thesis by simp
qed

lemma returns_call_no_position:
  assumes "map_of (columns (h r)) ''Close'' = Some close"
    and "map_of (columns (h r)) ''Position'' = None"
  shows "snd (calculate_returns_call r h) = Inl (KeyError ''Position'')
    \<and> map_of (columns (fst (calculate_returns_call r h) r)) ''Daily Return''
         = Some (pct_change close)"
proof -
  have "calculate_returns (h r) =
          Inl (KeyError ''Position'', setitem (h r) ''Daily Return'' (pct_change close))"
    using assms by (simp add: calculate_returns_def with_col_def setitem_def update_conv' Let_def)
  then have "calculate_returns_call r h =
     (h(r := setitem (h r) ''Daily Return'' (pct_change close)), Inl (KeyError ''Position''))"
    unfolding calculate_returns_call_def by (rule in_place_Inl)
  then show ?thesis by (simp add: setitem_def update_conv')
qed


text \<open>
  C9 (the engine and the caller's table), as amended. Both engines work on the caller's
  own table and return that same table. A call leaves every other table alone, and in
  the caller's table it leaves the index (the dates), the close column and every column
  whose name is not one of its outputs as they were. On a table with a close column
  \<open>calculate_signals\<close> succeeds, and that table then holds the two average columns, the
  signal and the position with the computed values; on a table with a close and a
  position column \<open>calculate_returns\<close> succeeds, and that table then holds the daily and
  the strategy return. The outputs are added in place, or overwritten where the name was
  already there. A call that raises for a missing close column has changed nothing;
  \<open>calculate_returns\<close> raising for a missing position column has already written the
  daily return.
\<close>

theorem engine_adds_columns_in_place:
  "((\<forall>q. q \<noteq> r \<longrightarrow> fst (calculate_signals_call sw lw r h) q = h q)
   \<and> index (fst (calculate_signals_call sw lw r h) r) = index (h r)
   \<and> map_of (columns (fst (calculate_signals_call sw lw r h) r)) ''Close''
        = map_of (columns (h r)) ''Close''
   \<and> (\<forall>n. n \<notin> {sma_name sw, sma_name lw, ''Signal'', ''Position''} \<longrightarrow>
         map_of (columns (fst (calculate_signals_call sw lw r h) r)) n = map_of (columns (h r)) n)
   \<and> (snd (calculate_signals_call sw lw r h) = Inr r
        \<or> snd (calculate_signals_call sw lw r h) = Inl (KeyError ''Close'')
           \<and> fst (calculate_signals_call sw lw r h) = h))
   \<and> (map_of (columns (h r)) ''Close'' = None \<longrightarrow>
         snd (calculate_signals_call sw lw r h) = Inl (KeyError ''Close'')
       \<and> fst (calculate_signals_call sw lw r h) = h)
   \<and> (\<forall>close. map_of (columns (h r)) ''Close'' = Some close \<longrightarrow>
         snd (calculate_signals_call sw lw r h) = Inr r
       \<and> map_of (columns (fst (calculate_signals_call sw lw r h) r)) (sma_name sw)
            = Some (rolling_mean sw close)
       \<and> map_of (columns (fst (calculate_signals_call sw lw r h) r)) (sma_name lw)
            = Some (rolling_mean lw close)
       \<and> map_of (columns (fst (calculate_signals_call sw lw r h) r)) ''Signal''
            = Some (signal_col sw lw (length (index (h r))) close)
       \<and> map_of (columns (fst (calculate_signals_call sw lw r h) r)) ''Position''
            = Some (position_col sw lw (length (index (h r))) close))
   \<and> ((\<forall>q. q \<noteq> r \<longrightarrow> fst (calculate_returns_call r h) q = h q)
   \<and> index (fst (calculate_returns_call r h) r) = index (h r)
   \<and> map_of (columns (fst (calculate_returns_call r h) r)) ''Close''
        = map_of (columns (h r)) ''Close''
   \<and> (\<forall>n. n \<notin> {''Daily Return'', ''Strategy Return''} \<longrightarrow>
         map_of (columns (fst (calculate_returns_call r h) r)) n = map_of (columns (h r)) n)
   \<and> (snd (calculate_returns_call r h) = Inr r
        \<or> snd (calculate_returns_call r h) = Inl (KeyError ''Position'')
        \<or> snd (calculate_returns_call r h) = Inl (KeyError ''Close'')
           \<and> fst (calculate_returns_call r h) = h))
   \<and> (map_of (columns (h r)) ''Close'' = None \<longrightarrow>
         snd (calculate_returns_call r h) = Inl (KeyError ''Close'')
       \<and> fst (calculate_returns_call r h) = h)
   \<and> (\<forall>close. map_of (columns (h r)) ''Close'' = Some close
               \<and> map_of (columns (h r)) ''Position'' = None \<longrightarrow>
         snd (calculate_returns_call r h) = Inl (KeyError ''Position'')
       \<and> map_of (columns (fst (calculate_returns_call r h) r)) ''Daily Return''
            = Some (pct_change close))
   \<and> (\<forall>close pos. map_of (columns (h r)) ''Close'' = Some close
               \<and> map_of (columns (h r)) ''Position'' = Some pos \<longrightarrow>
         snd (calculate_returns_call r h) = Inr r
       \<and> map_of (columns (fst (calculate_returns_call r h) r)) ''Daily Return''
            = Some (pct_change close)
       \<and> map_of (columns (fst (calculate_returns_call r h) r)) ''Strategy Return''
            = Some (map2 cell_mul (pct_change close) pos))"
proof -
  have A: "(\<forall>q. q \<noteq> r \<longrightarrow> fst (calculate_signals_call sw lw r h) q = h q)
   \<and> index (fst (calculate_signals_call sw lw r h) r) = index (h r)
   \<and> map_of (columns (fst (calculate_signals_call sw lw r h) r)) ''Close''
        = map_of (columns (h r)) ''Close''
   \<and> (\<forall>n. n \<notin> {sma_name sw, sma_name lw, ''Signal'', ''Position''} \<longrightarrow>
         map_of (columns (fst (calculate_signals_call sw lw r h) r)) n = map_of (columns (h r)) n)
   \<and> (snd (calculate_signals_call sw lw r h) = Inr r
        \<or> snd (calculate_signals_call sw lw r h) = Inl (KeyError ''Close'')
           \<and> fst (calculate_signals_call sw lw r h) = h)"
    by (rule signals_call_frame)
  have B: "map_of (columns (h r)) ''Close'' = None \<longrightarrow>
         snd (calculate_signals_call sw lw r h) = Inl (KeyError ''Close'')
       \<and> fst (calculate_signals_call sw lw r h) = h"
    by (rule impI) (rule signals_call_no_close)
  have C: "\<forall>close. map_of (columns (h r)) ''Close'' = Some close \<longrightarrow>
         snd (calculate_signals_call sw lw r h) = Inr r
       \<and> map_of (columns (fst (calculate_signals_call sw lw r h) r)) (sma_name sw)
            = Some (rolling_mean sw close)
       \<and> map_of (columns (fst (calculate_signals_call sw lw r h) r)) (sma_name lw)
            = Some (rolling_mean lw close)
       \<and> map_of (columns (fst (calculate_signals_call sw lw r h) r)) ''Signal''
            = Some (signal_col sw lw (length (index (h r))) close)
       \<and> map_of (columns (fst (calculate_signals_call sw lw r h) r)) ''Position''
            = Some (position_col sw lw (length (index (h r))) close)"
    by (intro allI impI) (rule signals_call_outputs)
  have D: "(\<forall>q. q \<noteq> r \<longrightarrow> fst (calculate_returns_call r h) q = h q)
   \<and> index (fst (calculate_returns_call r h) r) = index (h r)
   \<and> map_of (columns (fst (calculate_returns_call r h) r)) ''Close''
        = map_of (columns (h r)) ''Close''
   \<and> (\<forall>n. n \<notin> {''Daily Return'', ''Strategy Return''} \<longrightarrow>
         map_of (columns (fst (calculate_returns_call r h) r)) n = map_of (columns (h r)) n)
   \<and> (snd (calculate_returns_call r h) = Inr r
        \<or> snd (calculate_returns_call r h) = Inl (KeyError ''Position'')
        \<or> snd (calculate_returns_call r h) = Inl (KeyError ''Close'')
           \<and> fst (calculate_returns_call r h) = h)"
    by (rule returns_call_frame)
  have E: "map_of (columns (h r)) ''Close'' = None \<longrightarrow>
         snd (calculate_returns_call r h) = Inl (KeyError ''Close'')
       \<and> fst (calculate_returns_call r h) = h"
    by (rule impI) (rule returns_call_no_close)
  have F: "\<forall>close. map_of (columns (h r)) ''Close'' = Some close
               \<and> map_of (columns (h r)) ''Position'' = None \<longrightarrow>
         snd (calculate_returns_call r h) = Inl (KeyError ''Position'')
       \<and> map_of (columns (fst (calculate_returns_call r h) r)) ''Daily Return''
            = Some (pct_change close)"
    by (intro allI impI) (rule returns_call_no_position, simp_all)
  have G: "\<forall>close pos. map_of (columns (h r)) ''Close'' = Some close
               \<and> map_of (columns (h r)) ''Position'' = Some pos \<longrightarrow>
         snd (calculate_returns_call r h) = Inr r
       \<and> map_of (columns (fst (calculate_returns_call r h) r)) ''Daily Return''
            = Some (pct_change close)
       \<and> map_of (columns (fst (calculate_returns_call r h) r)) ''Strategy Return''
            = Some (map2 cell_mul (pct_change close) pos)"
    by (intro allI impI) (rule returns_call_outputs, simp_all)
  show ?thesis
    by (rule conjI[OF A conjI[OF B conjI[OF C conjI[OF D conjI[OF E conjI[OF F G]]]]]])
qed


lemma caller_cols:
  "map_of (columns (caller_heap 0)) ''Close'' = Some [Some 1, Some 1, Some 4, Some 1, Some 1]"
  "map_of (columns (caller_heap 0)) ''Volume'' = Some [Some 10, Some 20, Some 30, Some 40, Some 50]"
  "index (caller_heap 0) = [0, 1, 2, 3, 4]"
  by (simp_all add: caller_heap_def caller_frame_def)

lemma example_columns:
  "signal_col 2 3 (length [0, 1, 2, 3, 4 :: nat]) [Some 1, Some 1, Some 4, Some 1, Some 1]
     = [Some 0, Some 0, Some 1, Some 1, Some 0]"
  "position_col 2 3 (length [0, 1, 2, 3, 4 :: nat]) [Some 1, Some 1, Some 4, Some 1, Some 1]
     = [Some 0, Some 0, Some 1, Some 1, Some 1]"
  "pct_change [Some 1, Some 1, Some 4, Some 1, Some 1] = [None, Some 0, Some 3, Some (-3/4), Some 0]"
  by (simp_all add: position_col_def signal_col_def example_means gt_series_def loc_set_def
      replace_ffill_def fillna_def pct_change_def ffill_def shift_def sub_scalar_def)

theorem engine_adds_columns_in_place_witness:
  "snd (calculate_signals_call 2 3 0 caller_heap) = Inr 0
   \<and> signalled_heap 1 = caller_heap 1
   \<and> index (signalled_heap 0) = [0, 1, 2, 3, 4]
   \<and> map_of (columns (signalled_heap 0)) ''Close'' = Some [Some 1, Some 1, Some 4, Some 1, Some 1]
   \<and> map_of (columns (signalled_heap 0)) ''Volume''
        = Some [Some 10, Some 20, Some 30, Some 40, Some 50]
   \<and> map_of (columns (signalled_heap 0)) ''Signal'' = Some [Some 0, Some 0, Some 1, Some 1, Some 0]
   \<and> map_of (columns (signalled_heap 0)) ''Position'' = Some [Some 0, Some 0, Some 1, Some 1, Some 1]
   \<and> snd (calculate_returns_call 0 signalled_heap) = Inr 0
   \<and> map_of (columns (fst (calculate_returns_call 0 signalled_heap) 0)) ''Close''
        = Some [Some 1, Some 1, Some 4, Some 1, Some 1]
   \<and> map_of (columns (fst (calculate_returns_call 0 signalled_heap) 0)) ''Volume''
        = Some [Some 10, Some 20, Some 30, Some 40, Some 50]
   \<and> map_of (columns (fst (calculate_returns_call 0 signalled_heap) 0)) ''Daily Return''
        = Some [None, Some 0, Some 3, Some (-3/4), Some 0]
   \<and> map_of (columns (fst (calculate_returns_call 0 signalled_heap) 0)) ''Strategy Return''
        = Some [None, Some 0, Some 3, Some (-3/4), Some 0]"
proof -
  note t = engine_adds_columns_in_place[where r = 0 and sw = 2 and lw = 3 and h = caller_heap,
             folded signalled_heap_def]
  note frame = t[THEN conjunct1]
  note out = t[THEN conjunct2, THEN conjunct2, THEN conjunct1, rule_format, OF caller_cols(1)]
  have a: "(1::nat) \<noteq> 0" by simp
  have b: "''Volume'' \<notin> {sma_name 2, sma_name 3, ''Signal'', ''Position''}"
    by (simp add: example_names)
  have s0: "snd (calculate_signals_call 2 3 0 caller_heap) = Inr 0"
    by (rule out[THEN conjunct1])
  have s1: "signalled_heap 1 = caller_heap 1"
    by (rule frame[THEN conjunct1, rule_format, OF a])
  have s2: "index (signalled_heap 0) = [0, 1, 2, 3, 4]"
    using frame[THEN conjunct2, THEN conjunct1] caller_cols(3) by simp
  have s3: "map_of (columns (signalled_heap 0)) ''Close'' = Some [Some 1, Some 1, Some 4, Some 1, Some 1]"
    using frame[THEN conjunct2, THEN conjunct2, THEN conjunct1] caller_cols(1) by simp
  have s4: "map_of (columns (signalled_heap 0)) ''Volume''
        = Some [Some 10, Some 20, Some 30, Some 40, Some 50]"
    using frame[THEN conjunct2, THEN conjunct2, THEN conjunct2, THEN conjunct1, rule_format, OF b]
      caller_cols(2) by simp
  have s5: "map_of (columns (signalled_heap 0)) ''Signal'' = Some [Some 0, Some 0, Some 1, Some 1, Some 0]"
    using out[THEN conjunct2, THEN conjunct2, THEN conjunct2, THEN conjunct1]
    by (simp only: caller_cols(3) example_columns(1))
  have s6: "map_of (columns (signalled_heap 0)) ''Position'' = Some [Some 0, Some 0, Some 1, Some 1, Some 1]"
    using out[THEN conjunct2, THEN conjunct2, THEN conjunct2, THEN conjunct2]
    by (simp only: caller_cols(3) example_columns(2))
  note u = engine_adds_columns_in_place[where r = 0 and sw = 2 and lw = 3 and h = signalled_heap]
  note rest = u[THEN conjunct2, THEN conjunct2, THEN conjunct2]
  note rframe = rest[THEN conjunct1]
  have c: "''Volume'' \<notin> {''Daily Return'', ''Strategy Return''}" by simp
  note rout = rest[THEN conjunct2, THEN conjunct2, THEN conjunct2, rule_format, OF conjI[OF s3 s6]]
  have r0: "snd (calculate_returns_call 0 signalled_heap) = Inr 0"
    by (rule rout[THEN conjunct1])
  have r1: "map_of (columns (fst (calculate_returns_call 0 signalled_heap) 0)) ''Close''
        = Some [Some 1, Some 1, Some 4, Some 1, Some 1]"
    using rframe[THEN conjunct2, THEN conjunct2, THEN conjunct1] s3 by simp
  have r2: "map_of (columns (fst (calculate_returns_call 0 signalled_heap) 0)) ''Volume''
        = Some [Some 10, Some 20, Some 30, Some 40, Some 50]"
    using rframe[THEN conjunct2, THEN conjunct2, THEN conjunct2, THEN conjunct1, rule_format, OF c] s4
    by simp
  have r3: "map_of (columns (fst (calculate_returns_call 0 signalled_heap) 0)) ''Daily Return''
        = Some [None, Some 0, Some 3, Some (-3/4), Some 0]"
    using rout[THEN conjunct2, THEN conjunct1] by (simp only: example_columns(3))
  have r4: "map_of (columns (fst (calculate_returns_call 0 signalled_heap) 0)) ''Strategy Return''
        = Some [None, Some 0, Some 3, Some (-3/4), Some 0]"
    using rout[THEN conjunct2, THEN conjunct2] by (simp add: example_columns(3))
  show ?thesis by (intro conjI s0 s1 s2 s3 s4 s5 s6 r0 r1 r2 r3 r4)
qed

lemma example_call:
  "calculate_signals_call 2 3 0 example_heap =
     (example_heap(0 :=
        \<lparr>index = [0, 1, 2, 3, 4],
         columns =
           [(''Close'', [Some 1, Some 1, Some 4, Some 1, Some 1]),
            (''SMA2'', [None, Some 1, Some (5/2), Some (5/2), Some 1]),
            (''SMA3'', [None, None, Some 2, Some 2, Some 2]),
            (''Signal'', [Some 0, Some 0, Some 1, Some 1, Some 0]),
            (''Position'', [Some 0, Some 0, Some 1, Some 1, Some 1])]\<rparr>), Inr 0)"
  unfolding calculate_signals_call_def
  by (rule in_place_Inr) (simp add: example_heap_def example_signals)


text \<open>
  C9 as stated (no modification of the caller's table in place) fails: after
  \<open>calculate_signals\<close> the table at the caller's address is not the table that was
  there before; it has a position column it did not have, and the call returned that
  same address.
\<close>

theorem caller_table_changed_counterexample:
  "snd (calculate_signals_call 2 3 0 example_heap) = Inr 0
   \<and> map_of (columns (example_heap 0)) ''Position'' = None
   \<and> map_of (columns (fst (calculate_signals_call 2 3 0 example_heap) 0)) ''Position''
        = Some [Some 0, Some 0, Some 1, Some 1, Some 1]
   \<and> fst (calculate_signals_call 2 3 0 example_heap) 0 \<noteq> example_heap 0"
proof -
  have r: "snd (calculate_signals_call 2 3 0 example_heap) = Inr 0"
    by (simp only: example_call snd_conv)
  have before: "map_of (columns (example_heap 0)) ''Position'' = None"
    by (simp add: example_heap_def example_frame_def)
  have after: "map_of (columns (fst (calculate_signals_call 2 3 0 example_heap) 0)) ''Position''
        = Some [Some 0, Some 0, Some 1, Some 1, Some 1]"
    by (simp only: example_call fst_conv fun_upd_same) simp
  from before after
  have "fst (calculate_signals_call 2 3 0 example_heap) 0 \<noteq> example_heap 0"
    by (metis option.distinct(1))
  with r before after show ?thesis by (intro conjI)
qed

end
